theory Spec2Isabelle
  imports Complex_Main
begin

section \<open>The semantic actions of the toy-language front end (y.tab.c)\<close>

text \<open>
  The program is a Bison parser whose semantic actions keep a symbol table (a linked list
  of \<^verbatim>\<open>struct node\<close>) and build an abstract syntax tree on a linked stack
  (\<^verbatim>\<open>tree_stack\<close>). The state of the program is the set of its global variables; every
  function below takes that state and returns the state it leaves.

  Pointers. A \<^verbatim>\<open>struct node *\<close> is the position of the symbol in the list \<open>first\<close>
  (symbols are only appended while parsing, so a position stays valid). A \<^verbatim>\<open>Node *\<close> is
  \<open>Null\<close>, or \<open>Ptr\<close> of the tree it points to (a tree node is referenced from one place
  only, a stack cell or one child slot, so the trees are values), or \<open>Indeterminate\<close>:
  the content of a pointer field that no statement has assigned since \<^verbatim>\<open>malloc\<close> returned
  the block. Reading such a field has no result that the source determines.

  Character arrays. A C string is a character list. The copies into the arrays that a
  name of the input can overrun are checked: \<^verbatim>\<open>char name[20]\<close> of a symbol, \<^verbatim>\<open>char buff[20]\<close>
  of rule 39, \<^verbatim>\<open>char string[128]\<close> of the parser's value. The labels that the actions
  copy into \<^verbatim>\<open>char token[100]\<close> of a tree node are literals of the source, names that
  passed one of these checks, or numbers printed into \<^verbatim>\<open>char tempStr[100]\<close>; the size of
  the serialisation buffer \<^verbatim>\<open>char preBuf[1000000]\<close> is not part of the model. Every
  \<^verbatim>\<open>malloc\<close> is taken to return a block.

  Names are those of the source. Where two of them would be one constant here, the fields
  \<^verbatim>\<open>token\<close>, \<^verbatim>\<open>scope\<close> and \<^verbatim>\<open>val\<close> of a symbol are \<open>sym_token\<close>, \<open>sym_scope\<close> and
  \<open>sym_val\<close>, and the globals \<^verbatim>\<open>datatype\<close> and \<^verbatim>\<open>x\<close> are \<open>datatype_g\<close> and \<open>x_g\<close>.
\<close>

subsection \<open>Data\<close>

text \<open>\<^verbatim>\<open>union value { float f; int i; char c; }\<close>, tagged with the member last written;
  \<open>Val_unset\<close> is the storage as \<^verbatim>\<open>malloc\<close> returned it.\<close>

datatype value_u = Val_unset | Val_f real | Val_i int | Val_c char

text \<open>\<^verbatim>\<open>struct node\<close>, one symbol; the field \<^verbatim>\<open>link\<close> is the list structure.\<close>

record node =
  sym_token :: string
  name :: string
  dtype :: int
  sym_scope :: int
  lineno :: int
  valid :: int
  sym_val :: value_u

text \<open>A pointer to a tree node.\<close>

datatype 'a pointer = Null | Ptr 'a | Indeterminate

text \<open>\<^verbatim>\<open>struct Node\<close>, one tree node. The field \<^verbatim>\<open>level\<close> is written by \<^verbatim>\<open>get_levels\<close> only
  and read by nothing that is modelled.\<close>

datatype Node =
  Node (left: "Node pointer") (right: "Node pointer") (val: "Node pointer")
       (body: "Node pointer") (token: string)

text \<open>What the C program does where the model has no value: a dereferenced null pointer,
  the use of a pointer field that was never assigned, a string copied into an array that
  is too short for it, a float-to-int conversion whose result is undefined, an integer
  remainder that is undefined (by zero, or \<^verbatim>\<open>INT_MIN % -1\<close>). \<open>Wild_pointer\<close> answers a
  symbol position outside the list, which stands for no pointer of the program.
  \<open>Memory_exhausted\<close> is the parser giving up because its stack is full, and \<open>Unmodelled\<close>
  answers the part of an action that is not modelled (the compound assignments of
  rule 42).\<close>

datatype fault = Null_dereference | Wild_pointer | Indeterminate_value | Buffer_overflow
  | Undefined_conversion | Undefined_remainder | Memory_exhausted | Unmodelled

text \<open>The global variables. \<open>tree_top\<close> is the linked stack, top first (\<open>[]\<close> is
  \<^verbatim>\<open>tree_top == NULL\<close>); \<open>stdout\<close> holds one string per \<^verbatim>\<open>printf\<close> call.\<close>

record state =
  first :: "node list"
  scope :: int
  line :: int
  unaryop :: int
  assignop :: int
  datatype_g :: int
  assigntype :: int
  idcheck :: int
  check_un :: int
  x_g :: int
  tempStr :: string
  crt :: "nat option"
  lhs :: "nat option"
  tree_top :: "Node pointer list"
  preBuf :: string
  stdout :: "string list"

definition then_do :: "fault + 'a \<Rightarrow> ('a \<Rightarrow> fault + 'b) \<Rightarrow> fault + 'b" where
  "then_do r f = (case r of Inl e \<Rightarrow> Inl e | Inr v \<Rightarrow> f v)"

subsection \<open>The construction stack\<close>

definition push_tree :: "Node pointer \<Rightarrow> state \<Rightarrow> state" where
  "push_tree newnode st = st\<lparr>tree_top := newnode # tree_top st\<rparr>"

text \<open>\<^verbatim>\<open>pop_tree\<close> reads \<^verbatim>\<open>tree_top->next\<close> with no test: on the empty stack it dereferences
  \<^verbatim>\<open>NULL\<close>.\<close>

definition pop_tree :: "state \<Rightarrow> fault + (Node pointer \<times> state)" where
  "pop_tree st =
     (case tree_top st of
        [] \<Rightarrow> Inl Null_dereference
      | retnode # next \<Rightarrow> Inr (retnode, st\<lparr>tree_top := next\<rparr>))"

text \<open>\<^verbatim>\<open>create_node\<close> assigns the fields \<^verbatim>\<open>token\<close>, \<^verbatim>\<open>left\<close> and \<^verbatim>\<open>right\<close> of the block that
  \<^verbatim>\<open>malloc\<close> returned, and no other.\<close>

definition create_node :: "string \<Rightarrow> int \<Rightarrow> state \<Rightarrow> fault + state" where
  "create_node tok leaf st =
     (if leaf = 0 then
        then_do (pop_tree st) (\<lambda>(r, st1).
        then_do (pop_tree st1) (\<lambda>(l, st2).
        Inr (push_tree (Ptr (Node l r Indeterminate Indeterminate tok)) st2)))
      else if leaf = 1 then
        Inr (push_tree (Ptr (Node Null Null Indeterminate Indeterminate tok)) st)
      else
        then_do (pop_tree st) (\<lambda>(l, st1).
        Inr (push_tree (Ptr (Node l Null Indeterminate Indeterminate tok)) st1)))"

subsection \<open>Numbers and text\<close>

definition INT_MAX :: int where
  "INT_MAX = 2147483647"

definition INT_MIN :: int where
  "INT_MIN = - 2147483648"

text \<open>The semantic value \<^verbatim>\<open>fval\<close> of an expression is a C \<^verbatim>\<open>float\<close>; the model holds its
  mathematical value. Converting an \<^verbatim>\<open>int\<close> to \<^verbatim>\<open>float\<close> rounds to 24 significant bits, to
  nearest and ties to even (IEEE 754 single precision).\<close>

fun bit_length :: "nat \<Rightarrow> nat" where
  "bit_length n = (if n = 0 then 0 else Suc (bit_length (n div 2)))"

definition float_of_int :: "int \<Rightarrow> real" where
  "float_of_int n =
     (let a = nat \<bar>n\<bar>;
          e = bit_length a - 24;
          q = a div 2 ^ e;
          r = a mod 2 ^ e;
          m = (if 2 ^ e < 2 * r \<or> (2 * r = 2 ^ e \<and> odd q) then q + 1 else q)
      in (if n < 0 then - real (m * 2 ^ e) else real (m * 2 ^ e)))"

text \<open>Converting a \<^verbatim>\<open>float\<close> to \<^verbatim>\<open>int\<close> drops the fraction; the result is undefined when
  it is not an \<^verbatim>\<open>int\<close> (\<open>None\<close>).\<close>

definition int_of_float :: "real \<Rightarrow> int option" where
  "int_of_float v =
     (let t = (if v < 0 then \<lceil>v\<rceil> else \<lfloor>v\<rfloor>)
      in if INT_MIN \<le> t \<and> t \<le> INT_MAX then Some t else None)"

text \<open>The conversion specification \<^verbatim>\<open>%d\<close>.\<close>

fun dec_digits :: "nat \<Rightarrow> string" where
  "dec_digits n =
     (if n < 10 then [''0123456789'' ! n]
      else dec_digits (n div 10) @ [''0123456789'' ! (n mod 10)])"

definition show_int :: "int \<Rightarrow> string" where
  "show_int i = (if i < 0 then CHR ''-'' # dec_digits (nat (- i)) else dec_digits (nat i))"

definition printf :: "string \<Rightarrow> state \<Rightarrow> state" where
  "printf s st = st\<lparr>stdout := stdout st @ [s]\<rparr>"

text \<open>The four \<^verbatim>\<open>printf\<close> calls that open every diagnostic: the line, the colour, the
  severity, the colour reset.\<close>

definition warning_head :: "state \<Rightarrow> state" where
  "warning_head st =
     printf (CHR 0x1B # ''[0m'') (printf ''warning: '' (printf (CHR 0x1B # ''[1;35m'')
       (printf (''Line:'' @ show_int (line st) @ '': '') st)))"

definition error_head :: "state \<Rightarrow> state" where
  "error_head st =
     printf (CHR 0x1B # ''[0m'') (printf ''error: '' (printf (CHR 0x1B # ''[1;31m'')
       (printf (''Line:'' @ show_int (line st) @ '': '') st)))"

definition quoted :: "string \<Rightarrow> string" where
  "quoted s = CHR 0x27 # s @ [CHR 0x27]"

subsection \<open>The symbol table\<close>

text \<open>A \<^verbatim>\<open>struct node\<close> as \<^verbatim>\<open>malloc\<close> returns it; \<^verbatim>\<open>addsymbol\<close> assigns every field but
  \<^verbatim>\<open>token\<close> and \<^verbatim>\<open>val\<close>. Its first statement is \<^verbatim>\<open>strcpy(tp->name, vname)\<close> into
  \<^verbatim>\<open>char name[20]\<close>: a name of 20 characters or more writes past the array.\<close>

definition malloc_node :: node where
  "malloc_node = \<lparr>sym_token = [], name = [], dtype = 0, sym_scope = 0, lineno = 0, valid = 0,
                  sym_val = Val_unset\<rparr>"

definition addsymbol :: "node \<Rightarrow> string \<Rightarrow> state \<Rightarrow> fault + node" where
  "addsymbol tp vname st =
     (if 20 \<le> length vname then Inl Buffer_overflow
      else Inr (tp\<lparr>name := vname, dtype := - 1, sym_scope := scope st, valid := 1,
                   lineno := line st\<rparr>))"

text \<open>The loop of \<^verbatim>\<open>checksym\<close> over the list from position \<open>i\<close> on: the position it
  returns from (\<open>None\<close> when it runs off the end) and \<^verbatim>\<open>check_un\<close> as it leaves it.\<close>

fun checksym_loop :: "string \<Rightarrow> int \<Rightarrow> node list \<Rightarrow> nat \<Rightarrow> int \<Rightarrow> nat option \<times> int" where
  "checksym_loop vname sc [] i cu = (None, cu)"
| "checksym_loop vname sc (ftp # rest) i cu =
     (if vname = name ftp then
        (if sc < sym_scope ftp \<and> valid ftp = 1 then (Some i, cu)
         else if sym_scope ftp = sc \<and> valid ftp = 1 then (Some i, cu)
         else if sym_scope ftp < sc \<and> valid ftp = 1 then (Some i, 1)
         else if sc < sym_scope ftp \<and> valid ftp = 0 then checksym_loop vname sc rest (Suc i) 0
         else checksym_loop vname sc rest (Suc i) cu)
      else checksym_loop vname sc rest (Suc i) cu)"

definition checksym :: "string \<Rightarrow> state \<Rightarrow> fault + (nat \<times> state)" where
  "checksym vname st =
     (if first st = [] then
        then_do (addsymbol malloc_node vname st) (\<lambda>nnode. Inr (0, st\<lparr>first := [nnode]\<rparr>))
      else
        (case checksym_loop vname (scope st) (first st) 0 (check_un st) of
           (Some same, cu) \<Rightarrow> Inr (same, st\<lparr>check_un := cu\<rparr>)
         | (None, cu) \<Rightarrow>
             then_do (addsymbol malloc_node vname st) (\<lambda>nnode.
               Inr (length (first st), st\<lparr>first := first st @ [nnode], check_un := cu\<rparr>))))"

definition addfunc :: "node \<Rightarrow> int \<Rightarrow> string \<Rightarrow> node" where
  "addfunc t ty s =
     (if dtype t = - 1 then t\<lparr>dtype := ty, sym_val := Val_i 0, sym_token := s\<rparr> else t)"

definition addInt :: "node \<Rightarrow> int \<Rightarrow> int \<Rightarrow> node" where
  "addInt t ty v =
     (if dtype t = - 1 then t\<lparr>dtype := ty, sym_val := Val_i v, sym_token := ''identifier''\<rparr>
      else t)"

definition addFloat :: "node \<Rightarrow> int \<Rightarrow> real \<Rightarrow> node" where
  "addFloat t ty v =
     (if dtype t = - 1 then t\<lparr>dtype := ty, sym_val := Val_f v, sym_token := ''identifier''\<rparr>
      else t)"

definition addChar :: "node \<Rightarrow> int \<Rightarrow> char \<Rightarrow> node" where
  "addChar t ty v =
     (if dtype t = - 1 then t\<lparr>dtype := ty, sym_val := Val_c v, sym_token := ''identifier''\<rparr>
      else t)"

definition cleansymbol :: "state \<Rightarrow> state" where
  "cleansymbol st =
     st\<lparr>first := filter (\<lambda>entry. \<not> (dtype entry = - 1
                              \<or> (name entry = ''main'' \<and> sym_token entry = ''function'')))
                     (first st)\<rparr>"

text \<open>An assignment through a symbol pointer: \<^verbatim>\<open>*p = f(*p)\<close>.\<close>

definition at_symbol :: "nat \<Rightarrow> (node \<Rightarrow> node) \<Rightarrow> state \<Rightarrow> state" where
  "at_symbol p f st = st\<lparr>first := (first st)[p := f (first st ! p)]\<rparr>"

subsection \<open>The scanner\<close>

text \<open>Modelled from the spec: the scanner \<^verbatim>\<open>yylex\<close> is not among the sources. The spec has
  the scope depth rise by one on block entry, and a symbol created untyped at its first
  reference; the actions take \<^verbatim>\<open>$1\<close> of an \<^verbatim>\<open>IDENTIFIER\<close> token as a \<^verbatim>\<open>struct node *\<close>.
  So the scanner is taken to add one to \<^verbatim>\<open>scope\<close> when it reads an opening brace, and
  to store \<^verbatim>\<open>checksym(yytext)\<close> in the token when it reads an identifier. The line counter
  \<^verbatim>\<open>line\<close> is the scanner's too; the model leaves it at the value it starts with.\<close>

definition yylex_open_brace :: "state \<Rightarrow> state" where
  "yylex_open_brace st = st\<lparr>scope := scope st + 1\<rparr>"

definition yylex_IDENTIFIER :: "string \<Rightarrow> state \<Rightarrow> fault + (nat \<times> state)" where
  "yylex_IDENTIFIER yytext st = checksym yytext st"

subsection \<open>The semantic actions\<close>

text \<open>
  An action reads its operands \<^verbatim>\<open>$1\<close> ... \<^verbatim>\<open>$n\<close> from the parser's value stack and writes
  its result \<^verbatim>\<open>$$\<close> there. The value stack belongs to the parser, so an action below
  takes as arguments the operands that its effect on the globals depends on. The result
  \<^verbatim>\<open>$$\<close> is part of the model for the division rule (rule 84) and the declarator rule
  (rule 90) only; the other results are float arithmetic on the operands. The number
  of a rule is the one in the \<^verbatim>\<open>switch\<close> of \<^verbatim>\<open>yyparse\<close>.
\<close>

text \<open>Rule 14, \<^verbatim>\<open>block_item_list: block_item_list block_item\<close>.\<close>

definition rule14_block_item_list :: "state \<Rightarrow> fault + state" where
  "rule14_block_item_list st = create_node ''stmt'' 0 st"

text \<open>Rule 18, \<^verbatim>\<open>block_item: RETURN expression_statement\<close>.\<close>

definition rule18_return :: "state \<Rightarrow> fault + state" where
  "rule18_return st = create_node ''return'' 1 st"

text \<open>Rule 23, \<^verbatim>\<open>statement: compound_statement\<close>: the scope closes.\<close>

definition rule23_compound_statement :: "state \<Rightarrow> state" where
  "rule23_compound_statement st =
     st\<lparr>first := map (\<lambda>ftp. if sym_scope ftp = scope st \<and> valid ftp = 1
                             then ftp\<lparr>valid := 0\<rparr> else ftp) (first st),
        scope := scope st - 1\<rparr>"

text \<open>Rule 27, \<^verbatim>\<open>IF '(' relational_expression ')' statement\<close>. The action assigns
  \<^verbatim>\<open>token\<close>, \<^verbatim>\<open>left\<close>, \<^verbatim>\<open>right\<close> and \<^verbatim>\<open>val\<close> of the block it allocates, and not
  \<^verbatim>\<open>body\<close>; as do the actions of rules 28 and 50.\<close>

definition rule27_if :: "state \<Rightarrow> fault + state" where
  "rule27_if st =
     then_do (pop_tree st) (\<lambda>(then_stmt, st1).
     then_do (pop_tree st1) (\<lambda>(cond, st2).
     Inr (push_tree (Ptr (Node cond then_stmt Null Indeterminate ''if'')) st2)))"

text \<open>Rule 28, \<^verbatim>\<open>IF '(' relational_expression ')' statement ELSE statement\<close>.\<close>

definition rule28_if_else :: "state \<Rightarrow> fault + state" where
  "rule28_if_else st =
     then_do (pop_tree st) (\<lambda>(else_stmt, st1).
     then_do (pop_tree st1) (\<lambda>(then_stmt, st2).
     then_do (pop_tree st2) (\<lambda>(cond, st3).
     Inr (push_tree (Ptr (Node cond then_stmt else_stmt Indeterminate ''if'')) st3))))"

text \<open>Rule 29,
  \<^verbatim>\<open>FOR '(' expression_statement expression_statement expression ')' statement\<close>.\<close>

definition rule29_for :: "state \<Rightarrow> fault + state" where
  "rule29_for st =
     then_do (pop_tree st) (\<lambda>(body', st1).
     then_do (pop_tree st1) (\<lambda>(incr, st2).
     then_do (pop_tree st2) (\<lambda>(cond, st3).
     then_do (pop_tree st3) (\<lambda>(init, st4).
     Inr (push_tree (Ptr (Node init cond incr body' ''for'')) st4)))))"

text \<open>Rule 30, \<^verbatim>\<open>WHILE '(' relational_expression ')' statement\<close>.\<close>

definition rule30_while :: "state \<Rightarrow> fault + state" where
  "rule30_while st = create_node ''while'' 0 st"

text \<open>Rules 31 to 34, \<^verbatim>\<open>type_specifier\<close>: \<^verbatim>\<open>$1\<close> is the number the scanner gave the
  keyword. The actions and \<^verbatim>\<open>printsymtable\<close> read 0 as \<^verbatim>\<open>int\<close>, 1 as \<^verbatim>\<open>float\<close>, 2 as
  \<^verbatim>\<open>char\<close> and 3 as \<^verbatim>\<open>void\<close>.\<close>

definition rule31_type_specifier :: "int \<Rightarrow> state \<Rightarrow> state" where
  "rule31_type_specifier ival st = st\<lparr>datatype_g := ival\<rparr>"

text \<open>Rule 37, the action in the middle of
  \<^verbatim>\<open>init_declarator: IDENTIFIER $@1 '=' assignment_expression\<close>.\<close>

definition rule37_declared_name :: "nat \<Rightarrow> state \<Rightarrow> fault + state" where
  "rule37_declared_name p st =
     (if length (first st) \<le> p then Inl Wild_pointer
      else create_node (name (first st ! p)) 1 st)"

text \<open>The statements that type the declared symbol from \<^verbatim>\<open>datatype\<close> and the value
  \<^verbatim>\<open>$4\<close> of the initialiser; rule 38 has them twice. \<^verbatim>\<open>addInt\<close> and \<^verbatim>\<open>addChar\<close> are
  passed the \<^verbatim>\<open>float\<close> converted to \<^verbatim>\<open>int\<close>; a \<^verbatim>\<open>char\<close> keeps the low eight bits.\<close>

definition type_from_initialiser :: "nat \<Rightarrow> real \<Rightarrow> state \<Rightarrow> fault + state" where
  "type_from_initialiser p v4 st =
     then_do
       (if datatype_g st = 0 then
          (case int_of_float v4 of
             None \<Rightarrow> Inl Undefined_conversion
           | Some i \<Rightarrow>
               (let st1 = at_symbol p (\<lambda>t. addInt t 0 i) st
                in Inr (if assigntype st1 = 1
                        then printf (''implicit conversion from '' @ quoted ''float'' @ '' to ''
                                      @ quoted ''int'' @ [CHR '' '', CHR 0x0A, CHR 0x0A])
                               (warning_head st1)
                        else st1)))
        else if datatype_g st = 1 then
          (let st1 = at_symbol p (\<lambda>t. addFloat t 1 v4) st
           in Inr (if assigntype st1 = 2
                   then printf (''implicit conversion from '' @ quoted ''char'' @ '' to ''
                                 @ quoted ''float'' @ [CHR '' '', CHR 0x0A, CHR 0x0A])
                          (warning_head st1)
                   else st1))
        else if datatype_g st = 2 then
          (case int_of_float v4 of
             None \<Rightarrow> Inl Undefined_conversion
           | Some i \<Rightarrow>
               (let st1 = at_symbol p (\<lambda>t. addChar t 2 (char_of i)) st
                in Inr (if assigntype st1 = 1
                        then printf (''implicit conversion from '' @ quoted ''float'' @ '' to ''
                                      @ quoted ''char'' @ [CHR '' '', CHR 0x0A, CHR 0x0A])
                               (warning_head st1)
                        else st1)))
        else Inr st)
       (\<lambda>st'. Inr (st'\<lparr>x_g := datatype_g st'\<rparr>))"

text \<open>Rule 38, \<^verbatim>\<open>init_declarator: IDENTIFIER $@1 '=' assignment_expression\<close>.\<close>

definition rule38_init_declarator :: "nat \<Rightarrow> real \<Rightarrow> state \<Rightarrow> fault + state" where
  "rule38_init_declarator p v4 st =
     (if length (first st) \<le> p then Inl Wild_pointer
      else
        (let s = first st ! p in
         if dtype s \<noteq> - 1 \<and> sym_scope s < scope st \<and> valid s = 1 then
           then_do (addsymbol malloc_node (name s) st) (\<lambda>new.
             (let nnode = length (first st);
                  st1 = st\<lparr>first := first st @ [new]\<rparr>
              in then_do (type_from_initialiser nnode v4 st1) (create_node ''='' 0)))
         else if dtype s \<noteq> - 1 then
           Inr (printf (''redefinition of '' @ quoted (name s) @ [CHR '' '', CHR 0x0A])
                  (error_head st))
         else then_do (create_node ''='' 0 st) (type_from_initialiser p v4)))"

text \<open>The statements of rule 39 that type a symbol declared with no initialiser and push
  its leaf; rule 39 has them twice. The label is put together in \<^verbatim>\<open>char buff[20]\<close>:
  \<^verbatim>\<open>Dc \<close> and a name of 17 characters or more write past the array.\<close>

definition type_uninitialised :: "nat \<Rightarrow> state \<Rightarrow> fault + state" where
  "type_uninitialised p st =
     (let st1 = (if datatype_g st = 0 then at_symbol p (\<lambda>t. addInt t 0 INT_MIN) st
                 else if datatype_g st = 1
                   then at_symbol p (\<lambda>t. addFloat t 1 (float_of_int INT_MIN)) st
                 else if datatype_g st = 2 then at_symbol p (\<lambda>t. addChar t 2 CHR ''-'') st
                 else st);
          st2 = st1\<lparr>x_g := datatype_g st1\<rparr>
      in if 17 \<le> length (name (first st2 ! p)) then Inl Buffer_overflow
         else create_node (''Dc '' @ name (first st2 ! p)) 1 st2)"

text \<open>Rule 39, \<^verbatim>\<open>init_declarator: IDENTIFIER\<close>.\<close>

definition rule39_init_declarator :: "nat \<Rightarrow> state \<Rightarrow> fault + state" where
  "rule39_init_declarator p st =
     (if length (first st) \<le> p then Inl Wild_pointer
      else
        (let s = first st ! p in
         if dtype s \<noteq> - 1 \<and> sym_scope s < scope st \<and> valid s = 1 then
           then_do (addsymbol malloc_node (name s) st) (\<lambda>new.
             (let nnode = length (first st);
                  st1 = st\<lparr>first := first st @ [new]\<rparr>
              in type_uninitialised nnode st1))
         else if dtype s \<noteq> - 1 then
           Inr (printf (''redefinition of '' @ quoted (name s) @ [CHR '' '', CHR 0x0A])
                  (error_head st))
         else type_uninitialised p st))"

text \<open>Rule 41, the action in the middle of
  \<^verbatim>\<open>assignment_expression: unary_expression $@2 assignment_operator assignment_expression\<close>.\<close>

definition rule41_assignment_target :: "state \<Rightarrow> state" where
  "rule41_assignment_target st = st\<lparr>crt := lhs st\<rparr>"

text \<open>Rules 43 to 48, \<^verbatim>\<open>assignment_operator\<close>: \<open>0\<close> for \<^verbatim>\<open>=\<close>, \<open>1\<close> to \<open>5\<close> for
  \<^verbatim>\<open>+=\<close>, \<^verbatim>\<open>-=\<close>, \<^verbatim>\<open>*=\<close>, \<^verbatim>\<open>/=\<close>, \<^verbatim>\<open>%=\<close>.\<close>

definition rule43_assignment_operator :: "int \<Rightarrow> state \<Rightarrow> state" where
  "rule43_assignment_operator n st = st\<lparr>assignop := n\<rparr>"

text \<open>Rule 42, the assignment. Case 0 of its \<^verbatim>\<open>switch\<close> (the operator \<^verbatim>\<open>=\<close>) is modelled
  in full, \<^verbatim>\<open>$4\<close> being the value of the right-hand side; cases 1 to 5 compute with C
  arithmetic that is not modelled.\<close>

definition rule42_assignment :: "real \<Rightarrow> state \<Rightarrow> fault + state" where
  "rule42_assignment v4 st =
     then_do
       (if assignop st = 0 then
          then_do
            (if idcheck st = 1 then
               then_do (create_node ''='' 0 st) (\<lambda>st1.
                 (case crt st1 of
                    None \<Rightarrow> Inl Null_dereference
                  | Some c \<Rightarrow>
                      if length (first st1) \<le> c then Inl Wild_pointer
                      else if dtype (first st1 ! c) = 0 then
                        (let st2 = (if assigntype st1 = 1
                                    then printf (''implicit conversion from '' @ quoted ''float''
                                           @ '' to '' @ quoted ''int''
                                           @ [CHR '' '', CHR 0x0A, CHR 0x0A]) (warning_head st1)
                                    else st1)
                         in case int_of_float v4 of
                              None \<Rightarrow> Inl Undefined_conversion
                            | Some i \<Rightarrow> Inr (at_symbol c (\<lambda>t. t\<lparr>sym_val := Val_i i\<rparr>) st2))
                      else if dtype (first st1 ! c) = 1 then
                        (let st2 = (if assigntype st1 = 2
                                    then printf (''implicit conversion from '' @ quoted ''char''
                                           @ '' to '' @ quoted ''float''
                                           @ [CHR '' '', CHR 0x0A, CHR 0x0A]) (warning_head st1)
                                    else st1)
                         in Inr (at_symbol c (\<lambda>t. t\<lparr>sym_val := Val_f v4\<rparr>) st2))
                      else if dtype (first st1 ! c) = 2 then
                        (let st2 = (if assigntype st1 = 1
                                    then printf (''implicit conversion from '' @ quoted ''float''
                                           @ '' to '' @ quoted ''char''
                                           @ [CHR '' '', CHR 0x0A, CHR 0x0A]) (warning_head st1)
                                    else st1)
                         in case int_of_float v4 of
                              None \<Rightarrow> Inl Undefined_conversion
                            | Some i \<Rightarrow>
                                Inr (at_symbol c (\<lambda>t. t\<lparr>sym_val := Val_c (char_of i)\<rparr>) st2))
                      else Inr st1))
             else Inr (printf (''We'' @ [CHR 0x27] @ ''ll see later'' @ [CHR 0x0A]) st))
            (\<lambda>st3. Inr (st3\<lparr>crt := None\<rparr>))
        else if 1 \<le> assignop st \<and> assignop st \<le> 5 then Inl Unmodelled
        else Inr st)
       (\<lambda>st4. Inr (st4\<lparr>assignop := - 1, assigntype := - 1\<rparr>))"

text \<open>Rule 50,
  \<^verbatim>\<open>conditional_expression: equality_expression '?' expression ':' conditional_expression\<close>.\<close>

definition rule50_conditional :: "state \<Rightarrow> fault + state" where
  "rule50_conditional st =
     then_do (pop_tree st) (\<lambda>(else_expr, st1).
     then_do (pop_tree st1) (\<lambda>(then_expr, st2).
     then_do (pop_tree st2) (\<lambda>(cond, st3).
     Inr (push_tree (Ptr (Node cond then_expr else_expr Indeterminate ''if'')) st3))))"

text \<open>Rule 55, \<^verbatim>\<open>primary_expression: IDENTIFIER\<close>.\<close>

definition rule55_identifier :: "nat \<Rightarrow> state \<Rightarrow> fault + state" where
  "rule55_identifier p st =
     (if length (first st) \<le> p then Inl Wild_pointer
      else
        (let st1 = st\<lparr>idcheck := 1, lhs := Some p\<rparr>;
             s = first st1 ! p
         in if dtype s = - 1 \<and> check_un st1 = 0 then
              Inr ((printf (''use of undeclared identifier '' @ quoted (name s)
                             @ [CHR '' '', CHR 0x0A, CHR 0x0A]) (error_head st1))
                   \<lparr>check_un := 0\<rparr>)
            else if dtype s = 0 then create_node (name s) 1 (st1\<lparr>assigntype := 0\<rparr>)
            else if dtype s = 1 then create_node (name s) 1 (st1\<lparr>assigntype := 1\<rparr>)
            else if dtype s = 2 then create_node (name s) 1 (st1\<lparr>assigntype := 2\<rparr>)
            else Inr st1))"

text \<open>Rule 56, \<^verbatim>\<open>primary_expression: INTEGER_LITERAL\<close>.\<close>

definition rule56_integer_literal :: "int \<Rightarrow> state \<Rightarrow> fault + state" where
  "rule56_integer_literal ival st =
     (let st1 = st\<lparr>assigntype := 0, tempStr := show_int ival\<rparr>
      in create_node (tempStr st1) 1 st1)"

text \<open>Rule 58, \<^verbatim>\<open>primary_expression: CHARACTER_LITERAL\<close>.\<close>

definition rule58_character_literal :: "char \<Rightarrow> state \<Rightarrow> fault + state" where
  "rule58_character_literal cval st =
     (let st1 = st\<lparr>assigntype := 2, tempStr := (if cval = CHR 0x00 then [] else [cval])\<rparr>
      in create_node (tempStr st1) 1 st1)"

text \<open>Rules 61 and 62, \<^verbatim>\<open>postfix_expression: postfix_expression INC_OP\<close> and
  \<^verbatim>\<open>postfix_expression: postfix_expression DEC_OP\<close>.\<close>

definition rule61_post_increment :: "state \<Rightarrow> fault + state" where
  "rule61_post_increment st = create_node ''++'' 0 st"

definition rule62_post_decrement :: "state \<Rightarrow> fault + state" where
  "rule62_post_decrement st = create_node ''--'' 0 st"

text \<open>Rules 65 to 70, \<^verbatim>\<open>unary_operator\<close>, and rule 64,
  \<^verbatim>\<open>unary_expression: unary_operator unary_expression\<close>.\<close>

definition rule65_unary_operator :: "int \<Rightarrow> state \<Rightarrow> state" where
  "rule65_unary_operator n st = st\<lparr>unaryop := n\<rparr>"

definition rule64_unary :: "state \<Rightarrow> fault + state" where
  "rule64_unary st =
     then_do
       (if unaryop st = 1 then create_node (quoted ''+'') 0 st
        else if unaryop st = 2 then create_node (quoted ''-'') 0 st
        else if unaryop st = 3 then create_node ''!'' 0 st
        else if unaryop st = 4 then create_node ''~'' 0 st
        else if unaryop st = 5 then create_node ''++'' 0 st
        else if unaryop st = 6 then create_node ''--'' 0 st
        else Inr st)
       (\<lambda>st1. Inr (st1\<lparr>unaryop := - 1\<rparr>))"

text \<open>Rules 72, 73, 75 to 78, 80, 81 and 83: a binary operator other than \<^verbatim>\<open>/\<close> and
  \<^verbatim>\<open>%\<close>, with its spelling as the label.\<close>

definition rule_binary_operator :: "string \<Rightarrow> state \<Rightarrow> fault + state" where
  "rule_binary_operator op st = create_node op 0 st"

text \<open>Rule 84, \<^verbatim>\<open>multiplicative_expression: multiplicative_expression '/' unary_expression\<close>:
  what the action does to the globals, \<^verbatim>\<open>$3\<close> being the value of the divisor, and the
  value it leaves in \<^verbatim>\<open>$$\<close>. The quotient of two floats is the parameter \<open>fdiv\<close>: the
  rounding of float arithmetic is not modelled, and what is proved holds for every
  quotient.\<close>

definition rule84_division :: "real \<Rightarrow> state \<Rightarrow> fault + state" where
  "rule84_division v3 st =
     (if v3 = 0 then
        Inr (printf (''division by zero is undefined'' @ [CHR 0x0A, CHR 0x0A]) (warning_head st))
      else create_node ''/'' 0 st)"

definition rule84_result :: "(real \<Rightarrow> real \<Rightarrow> real) \<Rightarrow> real \<Rightarrow> real \<Rightarrow> real" where
  "rule84_result fdiv v1 v3 = (if v3 = 0 then float_of_int INT_MAX else fdiv v1 v3)"

text \<open>Rule 85, \<^verbatim>\<open>multiplicative_expression: multiplicative_expression '%' unary_expression\<close>.\<close>

definition rule85_modulo :: "real \<Rightarrow> real \<Rightarrow> state \<Rightarrow> fault + state" where
  "rule85_modulo v1 v3 st =
     (if assigntype st = 1 then
        Inr (printf (''invalid operands to binary expression ('' @ quoted ''float'' @ '' and ''
                      @ quoted ''float'' @ '') '' @ [CHR 0x0A, CHR 0x0A]) (error_head st))
      else
        (case (int_of_float v1, int_of_float v3) of
           (Some a, Some b) \<Rightarrow>
             if b = 0 \<or> (a = INT_MIN \<and> b = - 1) then Inl Undefined_remainder
             else create_node ''%'' 0 st
         | _ \<Rightarrow> Inl Undefined_conversion))"

text \<open>The loop of rules 86 and 87 over the symbols.\<close>

definition close_function :: "state \<Rightarrow> state" where
  "close_function st =
     st\<lparr>first := map (\<lambda>ftp. if sym_scope ftp = scope st \<and> valid ftp = 1 then ftp\<lparr>valid := 0\<rparr>
                             else if sym_token ftp = ''param'' \<and> valid ftp = 1
                               then ftp\<lparr>valid := 0\<rparr>
                             else ftp) (first st),
        scope := scope st - 1\<rparr>"

text \<open>Rule 86, \<^verbatim>\<open>function_definition: type_specifier declarator compound_statement\<close>;
  \<^verbatim>\<open>$2\<close> is the name of the function.\<close>

definition rule86_function_definition :: "string \<Rightarrow> state \<Rightarrow> fault + state" where
  "rule86_function_definition fname st =
     then_do (create_node fname 3 st) (\<lambda>st1. Inr (close_function st1))"

text \<open>Rule 87, \<^verbatim>\<open>function_definition: declarator compound_statement\<close>.\<close>

definition rule87_function_definition :: "string \<Rightarrow> state \<Rightarrow> fault + state" where
  "rule87_function_definition fname st =
     then_do (create_node fname 3 st) (\<lambda>st1.
       Inr (close_function
              (printf (''type specifier missing, defaults to '' @ quoted ''int''
                        @ [CHR '' '', CHR 0x0A]) (warning_head st1))))"

text \<open>Rule 90, \<^verbatim>\<open>declarator: IDENTIFIER\<close>, with its result, which the action copies
  into \<^verbatim>\<open>char string[128]\<close>, and rule 96,
  \<^verbatim>\<open>parameter_declaration: type_specifier IDENTIFIER\<close>.\<close>

definition rule90_declarator :: "nat \<Rightarrow> state \<Rightarrow> fault + (string \<times> state)" where
  "rule90_declarator p st =
     (if length (first st) \<le> p then Inl Wild_pointer
      else
        (let st1 = at_symbol p (\<lambda>t. addfunc t (datatype_g st) ''function'') st
         in if 128 \<le> length (name (first st1 ! p)) then Inl Buffer_overflow
            else Inr (name (first st1 ! p), st1)))"

definition rule96_parameter :: "nat \<Rightarrow> state \<Rightarrow> fault + state" where
  "rule96_parameter p st =
     (if length (first st) \<le> p then Inl Wild_pointer
      else Inr (at_symbol p (\<lambda>t. addfunc t (datatype_g st) ''param'') st))"

text \<open>Rule 2, \<^verbatim>\<open>S: program\<close>: \<^verbatim>\<open>cleansymbol\<close>, then \<^verbatim>\<open>printsymtable\<close>, whose output
  (the symbol table report) is not modelled.\<close>

definition rule2_program :: "state \<Rightarrow> state" where
  "rule2_program st = cleansymbol st"


subsection \<open>Programs and the reductions of their parse\<close>

text \<open>
  A syntactically well-formed program is a parse tree of the grammar. The datatypes below
  are the parse trees of the part of the grammar that is modelled; what the bottom-up
  parser does for such a tree is the sequence of the scanner's effects and of the
  semantic actions in the order of the reductions, which the \<open>build\<close> functions run.
  A tree holds the operand values that the parser hands to the actions that read them:
  the value \<^verbatim>\<open>$3\<close> of a divisor, \<^verbatim>\<open>$1\<close> and \<^verbatim>\<open>$3\<close> of a remainder, the value \<^verbatim>\<open>$4\<close> of
  the right-hand side of an initialiser or an assignment. The rules that only pass a
  value on (the parentheses of rule 59 among them) have no action on the globals.

  The scanner's effect for a token is run where the token is reduced or shifted. The
  parser reads a token ahead only where a reduction is pending that leaves alone what the
  scanner changes (rules 13, 14, 27 and the rules without an action), so the order of the
  two does not matter.

  Not modelled: float literals (rule 57 prints them with \<^verbatim>\<open>%f\<close>), the compound
  assignment operators, the comma operator, declarations of several names, declarations
  outside a function, parameters, function calls, \<^verbatim>\<open>print\<close> statements, the include
  line, functions with an empty body.
\<close>

datatype binop = Eq_op | Ne_op | Lt_op | Gt_op | Le_op | Ge_op | Add_op | Sub_op | Mul_op

fun binop_label :: "binop \<Rightarrow> string" where
  "binop_label Eq_op = ''==''"
| "binop_label Ne_op = ''!=''"
| "binop_label Lt_op = ''<''"
| "binop_label Gt_op = ''>''"
| "binop_label Le_op = ''<=''"
| "binop_label Ge_op = ''>=''"
| "binop_label Add_op = ''+''"
| "binop_label Sub_op = ''-''"
| "binop_label Mul_op = ''*''"

datatype expr =
    Int_literal int
  | Char_literal char
  | Identifier string
  | Paren expr
  | Binary binop expr expr
  | Divide expr expr real
  | Modulo expr expr real real
  | Conditional expr expr expr
  | Unary int expr
  | Post_inc expr
  | Post_dec expr
  | Assign string expr real

primrec build_expr :: "expr \<Rightarrow> state \<Rightarrow> fault + state" where
  "build_expr (Int_literal ival) = (\<lambda>st. rule56_integer_literal ival st)"
| "build_expr (Char_literal cval) = (\<lambda>st. rule58_character_literal cval st)"
| "build_expr (Identifier yytext) =
     (\<lambda>st. then_do (yylex_IDENTIFIER yytext st) (\<lambda>(p, st1). rule55_identifier p st1))"
| "build_expr (Paren a) = (\<lambda>st. build_expr a st)"
| "build_expr (Binary op a b) =
     (\<lambda>st. then_do (build_expr a st) (\<lambda>st1.
            then_do (build_expr b st1) (rule_binary_operator (binop_label op))))"
| "build_expr (Divide a b v3) =
     (\<lambda>st. then_do (build_expr a st) (\<lambda>st1.
            then_do (build_expr b st1) (rule84_division v3)))"
| "build_expr (Modulo a b v1 v3) =
     (\<lambda>st. then_do (build_expr a st) (\<lambda>st1.
            then_do (build_expr b st1) (rule85_modulo v1 v3)))"
| "build_expr (Conditional c a b) =
     (\<lambda>st. then_do (build_expr c st) (\<lambda>st1.
            then_do (build_expr a st1) (\<lambda>st2.
            then_do (build_expr b st2) rule50_conditional)))"
| "build_expr (Unary n a) =
     (\<lambda>st. then_do (build_expr a (rule65_unary_operator n st)) rule64_unary)"
| "build_expr (Post_inc a) = (\<lambda>st. then_do (build_expr a st) rule61_post_increment)"
| "build_expr (Post_dec a) = (\<lambda>st. then_do (build_expr a st) rule62_post_decrement)"
| "build_expr (Assign yytext a v4) =
     (\<lambda>st. then_do (yylex_IDENTIFIER yytext st) (\<lambda>(p, st1).
            then_do (rule55_identifier p st1) (\<lambda>st2.
            then_do (build_expr a (rule43_assignment_operator 0 (rule41_assignment_target st2)))
              (rule42_assignment v4))))"

text \<open>\<^verbatim>\<open>expression_statement: ';' | expression ';'\<close> has no action of its own.\<close>

fun build_expression_statement :: "expr option \<Rightarrow> state \<Rightarrow> fault + state" where
  "build_expression_statement None st = Inr st"
| "build_expression_statement (Some e) st = build_expr e st"

datatype stmt =
    Expression_statement "expr option"
  | Compound_empty
  | Compound items
  | If_then expr stmt
  | If_then_else expr stmt stmt
  | While expr stmt
  | For "expr option" "expr option" expr stmt
and item =
    Declaration int string expr real
  | Declaration_plain int string
  | Statement stmt
  | Return "expr option"
and items =
    One item
  | More items item

primrec build_stmt :: "stmt \<Rightarrow> state \<Rightarrow> fault + state"
  and build_item :: "item \<Rightarrow> state \<Rightarrow> fault + state"
  and build_items :: "items \<Rightarrow> state \<Rightarrow> fault + state" where
  "build_stmt (Expression_statement e) = (\<lambda>st. build_expression_statement e st)"
| "build_stmt Compound_empty = (\<lambda>st. Inr (rule23_compound_statement (yylex_open_brace st)))"
| "build_stmt (Compound block) =
     (\<lambda>st. then_do (build_items block (yylex_open_brace st)) (\<lambda>st1.
            Inr (rule23_compound_statement st1)))"
| "build_stmt (If_then c s) =
     (\<lambda>st. then_do (build_expr c st) (\<lambda>st1.
            then_do (build_stmt s st1) rule27_if))"
| "build_stmt (If_then_else c s1 s2) =
     (\<lambda>st. then_do (build_expr c st) (\<lambda>st1.
            then_do (build_stmt s1 st1) (\<lambda>st2.
            then_do (build_stmt s2 st2) rule28_if_else)))"
| "build_stmt (While c s) =
     (\<lambda>st. then_do (build_expr c st) (\<lambda>st1.
            then_do (build_stmt s st1) rule30_while))"
| "build_stmt (For init cond incr s) =
     (\<lambda>st. then_do (build_expression_statement init st) (\<lambda>st1.
            then_do (build_expression_statement cond st1) (\<lambda>st2.
            then_do (build_expr incr st2) (\<lambda>st3.
            then_do (build_stmt s st3) rule29_for))))"
| "build_item (Declaration ival yytext e v4) =
     (\<lambda>st. then_do (yylex_IDENTIFIER yytext (rule31_type_specifier ival st)) (\<lambda>(p, st1).
            then_do (rule37_declared_name p st1) (\<lambda>st2.
            then_do (build_expr e st2) (rule38_init_declarator p v4))))"
| "build_item (Declaration_plain ival yytext) =
     (\<lambda>st. then_do (yylex_IDENTIFIER yytext (rule31_type_specifier ival st)) (\<lambda>(p, st1).
            rule39_init_declarator p st1))"
| "build_item (Statement s) = (\<lambda>st. build_stmt s st)"
| "build_item (Return e) =
     (\<lambda>st. then_do (build_expression_statement e st) rule18_return)"
| "build_items (One i) = (\<lambda>st. build_item i st)"
| "build_items (More block i) =
     (\<lambda>st. then_do (build_items block st) (\<lambda>st1.
            then_do (build_item i st1) rule14_block_item_list))"

text \<open>\<^verbatim>\<open>function_definition: type_specifier declarator compound_statement\<close> with the
  declarator \<^verbatim>\<open>IDENTIFIER '(' ')'\<close> and a body that is not empty.\<close>

datatype fundef = Function int string items


fun build_function :: "fundef \<Rightarrow> state \<Rightarrow> fault + state" where
  "build_function (Function ival yytext block) st =
     then_do (yylex_IDENTIFIER yytext (rule31_type_specifier ival st)) (\<lambda>(p, st1).
     then_do (rule90_declarator p st1) (\<lambda>(fname, st2).
     then_do (build_items block (yylex_open_brace st2))
       (rule86_function_definition fname)))"

text \<open>\<^verbatim>\<open>translation_unit: ext_dec | translation_unit ext_dec\<close> has no action: the function
  definitions of a program are built one after the other.\<close>

fun build_translation_unit :: "fundef list \<Rightarrow> state \<Rightarrow> fault + state" where
  "build_translation_unit [] st = Inr st"
| "build_translation_unit (f # fs) st =
     then_do (build_function f st) (build_translation_unit fs)"

subsection \<open>The parser's stack\<close>

text \<open>
  \<^verbatim>\<open>yyparse\<close> keeps one entry on its stack for the start state and one for every grammar
  symbol it has shifted or reduced to and not yet reduced away. It lets the stack grow up
  to \<^verbatim>\<open>YYMAXDEPTH\<close> entries; when a push finds that many entries it reports
  \<^verbatim>\<open>memory exhausted\<close> and returns 2. The functions below give, for a parse tree, the
  greatest number of symbols its parse holds on the stack above the symbols that lay there
  before: for a rule \<open>A: X1 ... Xn\<close>, while \<open>Xi\<close> is read the symbols \<open>X1 ... X(i-1)\<close>
  lie below it, and \<open>n\<close> symbols lie there before the reduction. The right-hand sides are
  those of the rule comments in \<^verbatim>\<open>yyparse\<close> and, for the rules without an action, the
  lengths in \<^verbatim>\<open>yyr2\<close>; the empty symbols \<^verbatim>\<open>$@1\<close> and \<^verbatim>\<open>$@2\<close> of the actions in the middle
  of rules 38 and 42 count.
\<close>

definition YYMAXDEPTH :: nat where
  "YYMAXDEPTH = 10000"

primrec symbols_expr :: "expr \<Rightarrow> nat" where
  "symbols_expr (Int_literal ival) = 1"
| "symbols_expr (Char_literal cval) = 1"
| "symbols_expr (Identifier yytext) = 1"
| "symbols_expr (Paren a) = max 3 (1 + symbols_expr a)"
| "symbols_expr (Binary op a b) = max (symbols_expr a) (2 + symbols_expr b)"
| "symbols_expr (Divide a b v3) = max (symbols_expr a) (2 + symbols_expr b)"
| "symbols_expr (Modulo a b v1 v3) = max (symbols_expr a) (2 + symbols_expr b)"
| "symbols_expr (Conditional c a b) =
     max (symbols_expr c) (max (2 + symbols_expr a) (4 + symbols_expr b))"
| "symbols_expr (Unary n a) = 1 + symbols_expr a"
| "symbols_expr (Post_inc a) = max 2 (symbols_expr a)"
| "symbols_expr (Post_dec a) = max 2 (symbols_expr a)"
| "symbols_expr (Assign yytext a v4) = 3 + symbols_expr a"

fun symbols_expression_statement :: "expr option \<Rightarrow> nat" where
  "symbols_expression_statement None = 1"
| "symbols_expression_statement (Some e) = max 2 (symbols_expr e)"

primrec symbols_stmt :: "stmt \<Rightarrow> nat"
  and symbols_item :: "item \<Rightarrow> nat"
  and symbols_items :: "items \<Rightarrow> nat" where
  "symbols_stmt (Expression_statement e) = symbols_expression_statement e"
| "symbols_stmt Compound_empty = 2"
| "symbols_stmt (Compound block) = max 3 (1 + symbols_items block)"
| "symbols_stmt (If_then c s) = max (2 + symbols_expr c) (4 + symbols_stmt s)"
| "symbols_stmt (If_then_else c s1 s2) =
     max (2 + symbols_expr c) (max (4 + symbols_stmt s1) (6 + symbols_stmt s2))"
| "symbols_stmt (While c s) = max (2 + symbols_expr c) (4 + symbols_stmt s)"
| "symbols_stmt (For init cond incr s) =
     max (2 + symbols_expression_statement init)
       (max (3 + symbols_expression_statement cond)
          (max (4 + symbols_expr incr) (6 + symbols_stmt s)))"
| "symbols_item (Declaration ival yytext e v4) = 4 + symbols_expr e"
| "symbols_item (Declaration_plain ival yytext) = 3"
| "symbols_item (Statement s) = symbols_stmt s"
| "symbols_item (Return e) = 1 + symbols_expression_statement e"
| "symbols_items (One i) = symbols_item i"
| "symbols_items (More block i) = max (symbols_items block) (1 + symbols_item i)"

fun symbols_function :: "fundef \<Rightarrow> nat" where
  "symbols_function (Function ival yytext block) = max 5 (3 + symbols_items block)"

text \<open>The first function definition is read on the empty stack, every other one above the
  symbol \<^verbatim>\<open>translation_unit\<close>.\<close>

fun symbols_translation_unit :: "fundef list \<Rightarrow> nat" where
  "symbols_translation_unit [] = 0"
| "symbols_translation_unit (f # fs) =
     fold (\<lambda>g m. max m (1 + symbols_function g)) fs (symbols_function f)"

text \<open>\<^verbatim>\<open>yyparse\<close> on a program: its reductions, the last of them rule 2, whose action
  returns from \<^verbatim>\<open>yyparse\<close>; or \<^verbatim>\<open>memory exhausted\<close>, where the model does not keep what the
  actions had done until then.\<close>

definition yyparse :: "fundef list \<Rightarrow> state \<Rightarrow> fault + state" where
  "yyparse prog st =
     (if YYMAXDEPTH \<le> 1 + symbols_translation_unit prog then Inl Memory_exhausted
      else then_do (build_translation_unit prog st) (\<lambda>st1. Inr (rule2_program st1)))"

subsection \<open>Serialisation\<close>

text \<open>The truth value of a pointer, as in \<^verbatim>\<open>if (node->left)\<close>, and the operator \<^verbatim>\<open>||\<close>,
  which reads its right operand only when the left one is false.\<close>

fun is_set :: "Node pointer \<Rightarrow> fault + bool" where
  "is_set Null = Inr False"
| "is_set (Ptr n) = Inr True"
| "is_set Indeterminate = Inl Indeterminate_value"

definition or_else :: "fault + bool \<Rightarrow> fault + bool \<Rightarrow> fault + bool" where
  "or_else a b = (case a of Inl e \<Rightarrow> Inl e | Inr x \<Rightarrow> if x then Inr True else b)"

text \<open>\<^verbatim>\<open>preorder\<close> appends to the global buffer \<^verbatim>\<open>preBuf\<close> with \<^verbatim>\<open>strcat\<close>; the function
  below takes the buffer and returns it. The source tests \<^verbatim>\<open>node->left\<close> before the call
  \<^verbatim>\<open>preorder(node->left)\<close>; the call on \<open>Null\<close> returns the buffer as it is and the call on
  an indeterminate pointer is the fault of that test.\<close>

function preorder :: "Node pointer \<Rightarrow> string \<Rightarrow> fault + string" where
  "preorder Null buf = Inr buf"
| "preorder Indeterminate buf = Inl Indeterminate_value"
| "preorder (Ptr (Node l r v b tok)) buf =
     (case or_else (is_set l) (or_else (is_set r) (or_else (is_set v) (is_set b))) of
        Inl e \<Rightarrow> Inl e
      | Inr has_child \<Rightarrow>
          (case preorder l ((if has_child then buf @ '' ( '' else buf) @ tok @ '' '') of
             Inl e \<Rightarrow> Inl e
           | Inr buf4 \<Rightarrow>
               (case preorder r buf4 of
                  Inl e \<Rightarrow> Inl e
                | Inr buf5 \<Rightarrow>
                    (case preorder v buf5 of
                       Inl e \<Rightarrow> Inl e
                     | Inr buf6 \<Rightarrow>
                         (case preorder b buf6 of
                            Inl e \<Rightarrow> Inl e
                          | Inr buf7 \<Rightarrow> Inr (if has_child then buf7 @ '') '' else buf7))))))"
  by pat_completeness auto
termination
  by (relation "measure (\<lambda>(n, buf). size_pointer size n)") auto

text \<open>The text that \<^verbatim>\<open>preorder\<close> appends for a tree: the same recursion with no buffer.\<close>

function serial :: "Node pointer \<Rightarrow> fault + string" where
  "serial Null = Inr []"
| "serial Indeterminate = Inl Indeterminate_value"
| "serial (Ptr (Node l r v b tok)) =
     (case or_else (is_set l) (or_else (is_set r) (or_else (is_set v) (is_set b))) of
        Inl e \<Rightarrow> Inl e
      | Inr has_child \<Rightarrow>
          (case serial l of Inl e \<Rightarrow> Inl e | Inr t1 \<Rightarrow>
          (case serial r of Inl e \<Rightarrow> Inl e | Inr t2 \<Rightarrow>
          (case serial v of Inl e \<Rightarrow> Inl e | Inr t3 \<Rightarrow>
          (case serial b of Inl e \<Rightarrow> Inl e | Inr t4 \<Rightarrow>
             Inr ((if has_child then '' ( '' else []) @ tok @ '' '' @ t1 @ t2 @ t3 @ t4
                  @ (if has_child then '') '' else [])))))))"
  by pat_completeness auto
termination
  by (relation "measure (size_pointer size)") auto

text \<open>A tree as it is where \<^verbatim>\<open>malloc\<close> returns zero-filled blocks, as it does on a heap
  that has not been used: a pointer field that was never assigned is \<^verbatim>\<open>NULL\<close> there.\<close>

function zero_filled :: "Node pointer \<Rightarrow> Node pointer" where
  "zero_filled Null = Null"
| "zero_filled Indeterminate = Null"
| "zero_filled (Ptr (Node l r v b tok)) =
     Ptr (Node (zero_filled l) (zero_filled r) (zero_filled v) (zero_filled b) tok)"
  by pat_completeness auto
termination
  by (relation "measure (size_pointer size)") auto

subsection \<open>The main program\<close>

text \<open>\<^verbatim>\<open>main\<close> up to the call of \<^verbatim>\<open>yyparse\<close>: the globals as initialised, a first stack
  cell that holds no node, a newline printed. The line counter belongs to the scanner; its
  starting value is the parameter.\<close>

definition main_start :: "int \<Rightarrow> state" where
  "main_start line0 =
     \<lparr>first = [], scope = 0, line = line0, unaryop = - 1, assignop = - 1, datatype_g = - 1,
      assigntype = - 1, idcheck = - 1, check_un = 0, x_g = 0, tempStr = [],
      crt = None, lhs = None, tree_top = [Null], preBuf = [], stdout = [[CHR 0x0A]]\<rparr>"

text \<open>\<^verbatim>\<open>main\<close> after \<^verbatim>\<open>yyparse\<close>: the root is popped, \<^verbatim>\<open>get_levels\<close> dereferences it,
  \<^verbatim>\<open>printtree\<close> does nothing, the tree is serialised and printed.\<close>

definition main_finish :: "state \<Rightarrow> fault + state" where
  "main_finish st =
     then_do (pop_tree st) (\<lambda>(root, st1).
       if root = Null then Inl Null_dereference
       else
         then_do (preorder root (preBuf st1)) (\<lambda>buf.
           (let st2 = st1\<lparr>preBuf := buf\<rparr>
            in Inr (printf (preBuf st2 @ [CHR 0x0A])
                      (printf ([CHR 0x0A, CHR 0x0A] @ ''Preorder Traversal''
                                @ [CHR 0x0A, CHR 0x0A]) st2)))))"

subsection \<open>Reductions that build their node\<close>

text \<open>A step returned, and its result satisfies \<open>P\<close>.\<close>

definition after :: "fault + 'a \<Rightarrow> ('a \<Rightarrow> bool) \<Rightarrow> bool" where
  "after r P = (case r of Inl e \<Rightarrow> False | Inr v \<Rightarrow> P v)"

text \<open>The conditions under which an action takes the path on which it builds its node and
  raises no fault. Rule 55: the identifier resolves to a symbol typed \<^verbatim>\<open>int\<close>, \<^verbatim>\<open>float\<close> or
  \<^verbatim>\<open>char\<close>. Rule 85: the operands are not float and the remainder is defined. Rules 38 and
  39: the declaration is not a redefinition, the name fits the array it is copied into,
  and the value of the initialiser converts to \<^verbatim>\<open>int\<close> where the declared type asks for
  it. Rule 42: the operator is \<^verbatim>\<open>=\<close> and no assignment has been reduced since it was read
  (\<^verbatim>\<open>assignop\<close> is still 0 and the target is still set), an identifier has been read, and
  the value converts where the type of the target asks for it. Rule 84 builds its node
  when \<^verbatim>\<open>$3\<close> is not zero.\<close>

definition builds55 :: "nat \<Rightarrow> state \<Rightarrow> bool" where
  "builds55 p st \<longleftrightarrow>
     p < length (first st)
     \<and> (dtype (first st ! p) = 0 \<or> dtype (first st ! p) = 1 \<or> dtype (first st ! p) = 2)"

definition builds85 :: "real \<Rightarrow> real \<Rightarrow> state \<Rightarrow> bool" where
  "builds85 v1 v3 st \<longleftrightarrow>
     assigntype st \<noteq> 1
     \<and> (case (int_of_float v1, int_of_float v3) of
          (Some a, Some b) \<Rightarrow> b \<noteq> 0 \<and> \<not> (a = INT_MIN \<and> b = - 1)
        | _ \<Rightarrow> False)"

definition conversion_needed :: "int \<Rightarrow> real \<Rightarrow> bool" where
  "conversion_needed ty v \<longleftrightarrow> (if ty = 0 \<or> ty = 2 then int_of_float v \<noteq> None else True)"

definition builds38 :: "nat \<Rightarrow> real \<Rightarrow> state \<Rightarrow> bool" where
  "builds38 p v4 st \<longleftrightarrow>
     p < length (first st)
     \<and> (dtype (first st ! p) = - 1
        \<or> (sym_scope (first st ! p) < scope st \<and> valid (first st ! p) = 1
           \<and> length (name (first st ! p)) < 20))
     \<and> conversion_needed (datatype_g st) v4"

definition builds39 :: "nat \<Rightarrow> state \<Rightarrow> bool" where
  "builds39 p st \<longleftrightarrow>
     p < length (first st)
     \<and> (dtype (first st ! p) = - 1
        \<or> (sym_scope (first st ! p) < scope st \<and> valid (first st ! p) = 1))
     \<and> length (name (first st ! p)) < 17"

definition builds42 :: "real \<Rightarrow> state \<Rightarrow> bool" where
  "builds42 v4 st \<longleftrightarrow>
     assignop st = 0 \<and> idcheck st = 1
     \<and> (case crt st of
          None \<Rightarrow> False
        | Some c \<Rightarrow> c < length (first st) \<and> conversion_needed (dtype (first st ! c)) v4)"

text \<open>Every reduction of the parse of a tree, in the state it is reduced in, takes its
  node-building path, and the scanner's lookup of every name returns. An expression with
  a unary or postfix operator, a \<^verbatim>\<open>return\<close> with an operand, an empty statement and an
  empty block are no part of this: \<open>clean\<close> is false for them.\<close>

primrec clean_expr :: "expr \<Rightarrow> state \<Rightarrow> bool" where
  "clean_expr (Int_literal ival) = (\<lambda>st. True)"
| "clean_expr (Char_literal cval) = (\<lambda>st. True)"
| "clean_expr (Identifier yytext) =
     (\<lambda>st. after (yylex_IDENTIFIER yytext st) (\<lambda>(p, st1). builds55 p st1))"
| "clean_expr (Paren a) = (\<lambda>st. clean_expr a st)"
| "clean_expr (Binary op a b) =
     (\<lambda>st. clean_expr a st \<and> after (build_expr a st) (clean_expr b))"
| "clean_expr (Divide a b v3) =
     (\<lambda>st. clean_expr a st \<and> after (build_expr a st) (clean_expr b) \<and> v3 \<noteq> 0)"
| "clean_expr (Modulo a b v1 v3) =
     (\<lambda>st. clean_expr a st
           \<and> after (build_expr a st) (\<lambda>st1. clean_expr b st1
               \<and> after (build_expr b st1) (builds85 v1 v3)))"
| "clean_expr (Conditional c a b) =
     (\<lambda>st. clean_expr c st
           \<and> after (build_expr c st) (\<lambda>st1. clean_expr a st1
               \<and> after (build_expr a st1) (clean_expr b)))"
| "clean_expr (Unary n a) = (\<lambda>st. False)"
| "clean_expr (Post_inc a) = (\<lambda>st. False)"
| "clean_expr (Post_dec a) = (\<lambda>st. False)"
| "clean_expr (Assign yytext a v4) =
     (\<lambda>st. after (yylex_IDENTIFIER yytext st) (\<lambda>(p, st1).
            builds55 p st1
            \<and> after (rule55_identifier p st1) (\<lambda>st2.
                clean_expr a (rule43_assignment_operator 0 (rule41_assignment_target st2))
                \<and> after (build_expr a (rule43_assignment_operator 0 (rule41_assignment_target st2)))
                    (builds42 v4))))"

primrec clean_stmt :: "stmt \<Rightarrow> state \<Rightarrow> bool"
  and clean_item :: "item \<Rightarrow> state \<Rightarrow> bool"
  and clean_items :: "items \<Rightarrow> state \<Rightarrow> bool" where
  "clean_stmt (Expression_statement e) =
     (\<lambda>st. case e of None \<Rightarrow> False | Some e' \<Rightarrow> clean_expr e' st)"
| "clean_stmt Compound_empty = (\<lambda>st. False)"
| "clean_stmt (Compound block) = (\<lambda>st. clean_items block (yylex_open_brace st))"
| "clean_stmt (If_then c s) =
     (\<lambda>st. clean_expr c st \<and> after (build_expr c st) (clean_stmt s))"
| "clean_stmt (If_then_else c s1 s2) =
     (\<lambda>st. clean_expr c st
           \<and> after (build_expr c st) (\<lambda>st1. clean_stmt s1 st1
               \<and> after (build_stmt s1 st1) (clean_stmt s2)))"
| "clean_stmt (While c s) =
     (\<lambda>st. clean_expr c st \<and> after (build_expr c st) (clean_stmt s))"
| "clean_stmt (For init cond incr s) =
     (\<lambda>st. case (init, cond) of
        (Some i, Some c) \<Rightarrow>
          clean_expr i st
          \<and> after (build_expr i st) (\<lambda>st1. clean_expr c st1
              \<and> after (build_expr c st1) (\<lambda>st2. clean_expr incr st2
                  \<and> after (build_expr incr st2) (clean_stmt s)))
      | _ \<Rightarrow> False)"
| "clean_item (Declaration ival yytext e v4) =
     (\<lambda>st. after (yylex_IDENTIFIER yytext (rule31_type_specifier ival st)) (\<lambda>(p, st1).
        after (rule37_declared_name p st1) (\<lambda>st2. clean_expr e st2
          \<and> after (build_expr e st2) (builds38 p v4))))"
| "clean_item (Declaration_plain ival yytext) =
     (\<lambda>st. after (yylex_IDENTIFIER yytext (rule31_type_specifier ival st)) (\<lambda>(p, st1).
        builds39 p st1))"
| "clean_item (Statement s) = (\<lambda>st. clean_stmt s st)"
| "clean_item (Return e) = (\<lambda>st. e = None)"
| "clean_items (One i) = (\<lambda>st. clean_item i st)"
| "clean_items (More block i) =
     (\<lambda>st. clean_items block st \<and> after (build_items block st) (clean_item i))"




definition return_program :: "fundef list" where
  "return_program =
     [Function 0 ''main''
        (More (One (Declaration 0 ''a'' (Int_literal 1) 1)) (Return (Some (Identifier ''a''))))]"

definition increment_program :: "fundef list" where
  "increment_program =
     [Function 0 ''main''
        (More (One (Declaration 0 ''a'' (Int_literal 1) 1))
              (Statement (Expression_statement (Some (Post_inc (Identifier ''a''))))))]"

definition negation_program :: "fundef list" where
  "negation_program =
     [Function 0 ''main''
        (More (One (Declaration 0 ''a'' (Int_literal 1) 1))
              (Declaration 0 ''b'' (Unary 2 (Identifier ''a'')) (- 1)))]"


subsection \<open>The precedence of symbol resolution, in the spec's words\<close>

text \<open>The position of the first symbol of a list that satisfies a predicate.\<close>

primrec position :: "(node \<Rightarrow> bool) \<Rightarrow> node list \<Rightarrow> nat option" where
  "position P [] = None"
| "position P (s # ss) = (if P s then Some 0 else map_option Suc (position P ss))"

text \<open>The four outcomes of \<open>resolveOrDeclare\<close> in the precedence of the spec: a valid symbol
  of the name at a scope strictly outer than the current one; failing that a valid symbol
  at exactly the current scope; failing that a symbol of the name that is no longer valid,
  at a strictly inner scope; failing that, no match.\<close>

datatype outcome = Inherited nat | Current nat | Closed_inner | No_match

definition resolveOrDeclare_outcome :: "string \<Rightarrow> state \<Rightarrow> outcome" where
  "resolveOrDeclare_outcome vname st =
     (case position (\<lambda>s. name s = vname \<and> valid s = 1 \<and> sym_scope s < scope st) (first st) of
        Some i \<Rightarrow> Inherited i
      | None \<Rightarrow>
          (case position (\<lambda>s. name s = vname \<and> valid s = 1 \<and> sym_scope s = scope st)
                  (first st) of
             Some i \<Rightarrow> Current i
           | None \<Rightarrow>
               if list_ex (\<lambda>s. name s = vname \<and> valid s = 0 \<and> scope st < sym_scope s) (first st)
               then Closed_inner else No_match))"

text \<open>The new untyped symbol of a name at the current scope.\<close>

definition new_symbol :: "string \<Rightarrow> state \<Rightarrow> node" where
  "new_symbol vname st =
     malloc_node\<lparr>name := vname, dtype := - 1, sym_scope := scope st, valid := 1,
                 lineno := line st\<rparr>"

text \<open>What the spec has \<open>resolveOrDeclare\<close> do on each outcome, said of \<^verbatim>\<open>checksym\<close>: the
  outer symbol is returned and the inherited flag \<^verbatim>\<open>check_un\<close> set; the symbol of the
  current scope is returned, the table left as it is (the flag is left alone, or reset
  when a closed inner symbol of the name is listed before the one returned); after a
  closed inner symbol the name is declared afresh, a new untyped symbol of the current
  scope appended and returned, the flag reset; with no match a new untyped symbol of the
  current scope is appended and returned.\<close>

definition checksym_follows :: "string \<Rightarrow> state \<Rightarrow> bool" where
  "checksym_follows vname st =
     (case resolveOrDeclare_outcome vname st of
        Inherited i \<Rightarrow> checksym vname st = Inr (i, st\<lparr>check_un := 1\<rparr>)
      | Current i \<Rightarrow> checksym vname st = Inr (i, st)
                      \<or> checksym vname st = Inr (i, st\<lparr>check_un := 0\<rparr>)
      | Closed_inner \<Rightarrow>
          checksym vname st
            = Inr (length (first st),
                   st\<lparr>first := first st @ [new_symbol vname st], check_un := 0\<rparr>)
      | No_match \<Rightarrow>
          checksym vname st
            = Inr (length (first st), st\<lparr>first := first st @ [new_symbol vname st]\<rparr>))"

text \<open>The states of a run: the state \<^verbatim>\<open>main\<close> calls \<^verbatim>\<open>yyparse\<close> in, and every state that an
  effect of the scanner or a semantic action, with any operands, leaves when it is run in
  such a state and returns. The states that the parse of a program goes through are among
  them.\<close>

inductive reachable :: "state \<Rightarrow> bool" where
  start: "reachable (main_start line0)"
| scanned_line: "reachable st \<Longrightarrow> reachable (st\<lparr>line := l\<rparr>)"
| scanned_brace: "reachable st \<Longrightarrow> reachable (yylex_open_brace st)"
| scanned_identifier:
    "reachable st \<Longrightarrow> yylex_IDENTIFIER yytext st = Inr (p, st') \<Longrightarrow> reachable st'"
| reduced2: "reachable st \<Longrightarrow> reachable (rule2_program st)"
| reduced14: "reachable st \<Longrightarrow> rule14_block_item_list st = Inr st' \<Longrightarrow> reachable st'"
| reduced18: "reachable st \<Longrightarrow> rule18_return st = Inr st' \<Longrightarrow> reachable st'"
| reduced23: "reachable st \<Longrightarrow> reachable (rule23_compound_statement st)"
| reduced27: "reachable st \<Longrightarrow> rule27_if st = Inr st' \<Longrightarrow> reachable st'"
| reduced28: "reachable st \<Longrightarrow> rule28_if_else st = Inr st' \<Longrightarrow> reachable st'"
| reduced29: "reachable st \<Longrightarrow> rule29_for st = Inr st' \<Longrightarrow> reachable st'"
| reduced30: "reachable st \<Longrightarrow> rule30_while st = Inr st' \<Longrightarrow> reachable st'"
| reduced31: "reachable st \<Longrightarrow> reachable (rule31_type_specifier ival st)"
| reduced37: "reachable st \<Longrightarrow> rule37_declared_name p st = Inr st' \<Longrightarrow> reachable st'"
| reduced38: "reachable st \<Longrightarrow> rule38_init_declarator p v4 st = Inr st' \<Longrightarrow> reachable st'"
| reduced39: "reachable st \<Longrightarrow> rule39_init_declarator p st = Inr st' \<Longrightarrow> reachable st'"
| reduced41: "reachable st \<Longrightarrow> reachable (rule41_assignment_target st)"
| reduced42: "reachable st \<Longrightarrow> rule42_assignment v4 st = Inr st' \<Longrightarrow> reachable st'"
| reduced43: "reachable st \<Longrightarrow> reachable (rule43_assignment_operator n st)"
| reduced50: "reachable st \<Longrightarrow> rule50_conditional st = Inr st' \<Longrightarrow> reachable st'"
| reduced55: "reachable st \<Longrightarrow> rule55_identifier p st = Inr st' \<Longrightarrow> reachable st'"
| reduced56: "reachable st \<Longrightarrow> rule56_integer_literal ival st = Inr st' \<Longrightarrow> reachable st'"
| reduced58: "reachable st \<Longrightarrow> rule58_character_literal cval st = Inr st' \<Longrightarrow> reachable st'"
| reduced61: "reachable st \<Longrightarrow> rule61_post_increment st = Inr st' \<Longrightarrow> reachable st'"
| reduced62: "reachable st \<Longrightarrow> rule62_post_decrement st = Inr st' \<Longrightarrow> reachable st'"
| reduced64: "reachable st \<Longrightarrow> rule64_unary st = Inr st' \<Longrightarrow> reachable st'"
| reduced65: "reachable st \<Longrightarrow> reachable (rule65_unary_operator n st)"
| reduced_binary: "reachable st \<Longrightarrow> rule_binary_operator op st = Inr st' \<Longrightarrow> reachable st'"
| reduced84: "reachable st \<Longrightarrow> rule84_division v3 st = Inr st' \<Longrightarrow> reachable st'"
| reduced85: "reachable st \<Longrightarrow> rule85_modulo v1 v3 st = Inr st' \<Longrightarrow> reachable st'"
| reduced86: "reachable st \<Longrightarrow> rule86_function_definition fname st = Inr st' \<Longrightarrow> reachable st'"
| reduced87: "reachable st \<Longrightarrow> rule87_function_definition fname st = Inr st' \<Longrightarrow> reachable st'"
| reduced90: "reachable st \<Longrightarrow> rule90_declarator p st = Inr (fname, st') \<Longrightarrow> reachable st'"
| reduced96: "reachable st \<Longrightarrow> rule96_parameter p st = Inr st' \<Longrightarrow> reachable st'"

text \<open>The state of a run in which the scanner has read the name \<open>a\<close> outside every
  block and then an opening brace.\<close>

definition block_entered :: state where
  "block_entered = yylex_open_brace ((main_start 1)\<lparr>first := [new_symbol ''a'' (main_start 1)]\<rparr>)"

text \<open>The scopes of the symbols in the order of the list, each with its validity; and the
  invariant of the table: the valid symbols are listed outermost first, and none lies
  deeper than the current scope.\<close>

definition keys :: "node list \<Rightarrow> (int \<times> int) list" where
  "keys syms = map (\<lambda>s. (sym_scope s, valid s)) syms"

definition ordered :: "(int \<times> int) list \<Rightarrow> int \<Rightarrow> bool" where
  "ordered ks sc \<longleftrightarrow>
     sorted (map fst (filter (\<lambda>k. snd k = 1) ks))
     \<and> list_all (\<lambda>k. snd k = 1 \<longrightarrow> fst k \<le> sc) ks"

definition well_scoped :: "state \<Rightarrow> bool" where
  "well_scoped st = ordered (keys (first st)) (scope st)"

text \<open>What an action may do to the table: nothing to the keys, or append a valid symbol of
  the current scope; the scope depth stays.\<close>

definition quiet :: "state \<Rightarrow> state \<Rightarrow> bool" where
  "quiet st st' \<longleftrightarrow>
     scope st' = scope st
     \<and> (keys (first st') = keys (first st)
        \<or> keys (first st') = keys (first st) @ [(scope st, 1)])"

subsection \<open>Scopes\<close>

text \<open>The run of the parser over \<^verbatim>\<open>int main() {\<close>; the programs
  \<^verbatim>\<open>int main() { int a = 5; { int a = 6; } }\<close> and
  \<^verbatim>\<open>int main() { int a = 5; { int a = 6; a = 7; } }\<close>; and the run of the parser over
  \<^verbatim>\<open>int main() { int a = 5; { int a = 6;\<close>, which ends inside the inner block.\<close>

definition main_opened :: "fault + state" where
  "main_opened =
     then_do (yylex_IDENTIFIER ''main'' (rule31_type_specifier 0 (main_start 1))) (\<lambda>(p, st1).
     then_do (rule90_declarator p st1) (\<lambda>(fname, st2). Inr (yylex_open_brace st2)))"

definition shadow_program :: "fundef list" where
  "shadow_program =
     [Function 0 ''main''
        (More (One (Declaration 0 ''a'' (Int_literal 5) 5))
              (Statement (Compound (One (Declaration 0 ''a'' (Int_literal 6) 6)))))]"

definition shadow_assign_program :: "fundef list" where
  "shadow_assign_program =
     [Function 0 ''main''
        (More (One (Declaration 0 ''a'' (Int_literal 5) 5))
              (Statement (Compound
                 (More (One (Declaration 0 ''a'' (Int_literal 6) 6))
                       (Statement (Expression_statement
                                     (Some (Assign ''a'' (Int_literal 7) 7))))))))]"

definition inside_inner_block :: "fault + state" where
  "inside_inner_block =
     then_do main_opened (\<lambda>st.
     then_do (build_item (Declaration 0 ''a'' (Int_literal 5) 5) st) (\<lambda>st1.
     build_item (Declaration 0 ''a'' (Int_literal 6) 6) (yylex_open_brace st1)))"

text \<open>What is read of the symbols of a state below: name, scope, validity and value.\<close>

definition listed :: "state \<Rightarrow> (string \<times> int \<times> int \<times> value_u) list" where
  "listed st = map (\<lambda>s. (name s, sym_scope s, valid s, sym_val s)) (first st)"

subsection \<open>The scenario of the serialisation contract\<close>

text \<open>The statement \<^verbatim>\<open>if (a < b) x = 1; else x = 2;\<close>, the tree that the actions build for
  it, and the run of the parser over \<^verbatim>\<open>int main() { int a = 1; int b = 2; int x = 0;\<close>,
  after which the statement is read.\<close>

definition scenario_if :: stmt where
  "scenario_if =
     If_then_else (Binary Lt_op (Identifier ''a'') (Identifier ''b''))
       (Expression_statement (Some (Assign ''x'' (Int_literal 1) 1)))
       (Expression_statement (Some (Assign ''x'' (Int_literal 2) 2)))"

definition scenario_if_tree :: Node where
  "scenario_if_tree =
     Node (Ptr (Node (Ptr (Node Null Null Indeterminate Indeterminate ''a''))
                     (Ptr (Node Null Null Indeterminate Indeterminate ''b''))
                     Indeterminate Indeterminate ''<''))
          (Ptr (Node (Ptr (Node Null Null Indeterminate Indeterminate ''x''))
                     (Ptr (Node Null Null Indeterminate Indeterminate ''1''))
                     Indeterminate Indeterminate ''=''))
          (Ptr (Node (Ptr (Node Null Null Indeterminate Indeterminate ''x''))
                     (Ptr (Node Null Null Indeterminate Indeterminate ''2''))
                     Indeterminate Indeterminate ''=''))
          Indeterminate ''if''"

definition declared_abx :: "fault + state" where
  "declared_abx =
     then_do main_opened
       (build_items (More (More (One (Declaration 0 ''a'' (Int_literal 1) 1))
                               (Declaration 0 ''b'' (Int_literal 2) 2))
                         (Declaration 0 ''x'' (Int_literal 0) 0)))"

text \<open>The tokens of a text: its maximal runs of characters other than the space.\<close>

fun split_words :: "string \<Rightarrow> string \<Rightarrow> string list" where
  "split_words w [] = (if w = [] then [] else [w])"
| "split_words w (c # cs) =
     (if c = CHR '' '' then (if w = [] then split_words [] cs else w # split_words [] cs)
      else split_words (w @ [c]) cs)"

definition tokens :: "string \<Rightarrow> string list" where
  "tokens s = split_words [] s"

subsection \<open>Properties of the construction stack\<close>

lemma create_node_binary:
  "tree_top st = r # l # ns \<Longrightarrow>
   create_node tok 0 st
     = Inr (st\<lparr>tree_top := Ptr (Node l r Indeterminate Indeterminate tok) # ns\<rparr>)"
  by (simp add: create_node_def pop_tree_def then_do_def push_tree_def)

lemma create_node_leaf:
  "create_node tok 1 st
     = Inr (st\<lparr>tree_top := Ptr (Node Null Null Indeterminate Indeterminate tok) # tree_top st\<rparr>)"
  by (simp add: create_node_def push_tree_def)


text \<open>
  Claim C3. On a stack that holds at least two entries, building a binary node pops two
  entries in LIFO order: the entry pushed last becomes the right child (child[1]), the
  entry pushed before it becomes the left child (child[0]), and the new node is pushed on
  what remains.
\<close>

theorem create_node_binary_lifo:
  assumes "tree_top st = pushed_last # pushed_before # below"
  shows "\<exists>st' newnode. create_node tok 0 st = Inr st'
           \<and> tree_top st' = Ptr newnode # below
           \<and> right newnode = pushed_last \<and> left newnode = pushed_before
           \<and> token newnode = tok"
  using assms by (simp add: create_node_binary)

theorem create_node_binary_lifo_witness:
  "tree_top (push_tree (Ptr (Node Null Null Indeterminate Indeterminate ''b''))
       (push_tree (Ptr (Node Null Null Indeterminate Indeterminate ''a'')) (main_start 1)))
     = Ptr (Node Null Null Indeterminate Indeterminate ''b'')
       # Ptr (Node Null Null Indeterminate Indeterminate ''a'') # [Null]
   \<and> (\<exists>st' newnode.
        create_node ''+'' 0
          (push_tree (Ptr (Node Null Null Indeterminate Indeterminate ''b''))
            (push_tree (Ptr (Node Null Null Indeterminate Indeterminate ''a'')) (main_start 1)))
          = Inr st'
        \<and> tree_top st' = Ptr newnode # [Null]
        \<and> right newnode = Ptr (Node Null Null Indeterminate Indeterminate ''b'')
        \<and> left newnode = Ptr (Node Null Null Indeterminate Indeterminate ''a'')
        \<and> token newnode = ''+'')"
proof -
  have h: "tree_top (push_tree (Ptr (Node Null Null Indeterminate Indeterminate ''b''))
       (push_tree (Ptr (Node Null Null Indeterminate Indeterminate ''a'')) (main_start 1)))
     = Ptr (Node Null Null Indeterminate Indeterminate ''b'')
       # Ptr (Node Null Null Indeterminate Indeterminate ''a'') # [Null]"
    by (simp add: push_tree_def main_start_def)
  from create_node_binary_lifo [OF h, of "''+''"] h show ?thesis by blast
qed

text \<open>The definitions that a run of the actions on a concrete program unfolds.\<close>

lemmas action_defs =
  then_do_def push_tree_def pop_tree_def create_node_def printf_def warning_head_def
  error_head_def quoted_def addsymbol_def malloc_node_def checksym_def addfunc_def addInt_def
  addFloat_def addChar_def at_symbol_def yylex_open_brace_def yylex_IDENTIFIER_def
  rule14_block_item_list_def rule18_return_def rule23_compound_statement_def rule27_if_def
  rule28_if_else_def rule29_for_def rule30_while_def rule31_type_specifier_def
  rule37_declared_name_def type_from_initialiser_def rule38_init_declarator_def
  type_uninitialised_def rule39_init_declarator_def rule41_assignment_target_def
  rule43_assignment_operator_def rule42_assignment_def rule50_conditional_def
  rule55_identifier_def rule56_integer_literal_def rule58_character_literal_def
  rule61_post_increment_def rule62_post_decrement_def rule65_unary_operator_def
  rule64_unary_def rule_binary_operator_def rule84_division_def rule85_modulo_def
  close_function_def rule86_function_definition_def rule90_declarator_def
  rule2_program_def cleansymbol_def yyparse_def YYMAXDEPTH_def main_start_def show_int_def
  int_of_float_def INT_MAX_def INT_MIN_def Let_def


subsection \<open>Typing a symbol\<close>

text \<open>
  Claim C6. A call of addInt, addFloat, addChar or addfunc on a symbol whose kind is
  already set (\<open>dtype \<noteq> -1\<close>) leaves the symbol as it was, kind and value included, and
  made through a pointer it leaves the whole program state as it was; the call takes
  effect only on an untyped symbol (\<open>dtype = -1\<close>), where it sets the kind and the value.
\<close>

theorem typing_first_wins:
  "(dtype t \<noteq> - 1 \<longrightarrow>
      addInt t ty i = t \<and> addFloat t ty f = t \<and> addChar t ty c = t \<and> addfunc t ty s = t)
   \<and> (dtype (first st ! p) \<noteq> - 1 \<longrightarrow>
      at_symbol p (\<lambda>t. addInt t ty i) st = st \<and> at_symbol p (\<lambda>t. addFloat t ty f) st = st
      \<and> at_symbol p (\<lambda>t. addChar t ty c) st = st \<and> at_symbol p (\<lambda>t. addfunc t ty s) st = st)
   \<and> (dtype u = - 1 \<longrightarrow>
      dtype (addInt u ty i) = ty \<and> sym_val (addInt u ty i) = Val_i i
      \<and> dtype (addFloat u ty f) = ty \<and> sym_val (addFloat u ty f) = Val_f f
      \<and> dtype (addChar u ty c) = ty \<and> sym_val (addChar u ty c) = Val_c c
      \<and> dtype (addfunc u ty s) = ty \<and> sym_val (addfunc u ty s) = Val_i 0)"
  by (simp add: addInt_def addFloat_def addChar_def addfunc_def at_symbol_def)

theorem typing_first_wins_witness:
  "dtype \<lparr>sym_token = ''identifier'', name = ''a'', dtype = 0, sym_scope = 0, lineno = 1,
          valid = 1, sym_val = Val_i 5\<rparr> \<noteq> - 1
   \<and> addInt \<lparr>sym_token = ''identifier'', name = ''a'', dtype = 0, sym_scope = 0, lineno = 1,
          valid = 1, sym_val = Val_i 5\<rparr> 1 7
       = \<lparr>sym_token = ''identifier'', name = ''a'', dtype = 0, sym_scope = 0, lineno = 1,
          valid = 1, sym_val = Val_i 5\<rparr>
   \<and> addfunc \<lparr>sym_token = ''identifier'', name = ''a'', dtype = 0, sym_scope = 0, lineno = 1,
          valid = 1, sym_val = Val_i 5\<rparr> 3 ''function''
       = \<lparr>sym_token = ''identifier'', name = ''a'', dtype = 0, sym_scope = 0, lineno = 1,
          valid = 1, sym_val = Val_i 5\<rparr>
   \<and> dtype (first ((main_start 1)\<lparr>first := [\<lparr>sym_token = ''identifier'', name = ''a'',
          dtype = 0, sym_scope = 0, lineno = 1, valid = 1, sym_val = Val_i 5\<rparr>]\<rparr>) ! 0) \<noteq> - 1
   \<and> at_symbol 0 (\<lambda>t. addFloat t 1 2)
         ((main_start 1)\<lparr>first := [\<lparr>sym_token = ''identifier'', name = ''a'',
          dtype = 0, sym_scope = 0, lineno = 1, valid = 1, sym_val = Val_i 5\<rparr>]\<rparr>)
       = (main_start 1)\<lparr>first := [\<lparr>sym_token = ''identifier'', name = ''a'',
          dtype = 0, sym_scope = 0, lineno = 1, valid = 1, sym_val = Val_i 5\<rparr>]\<rparr>
   \<and> dtype (new_symbol ''b'' (main_start 1)) = - 1
   \<and> dtype (addInt (new_symbol ''b'' (main_start 1)) 0 7) = 0
   \<and> sym_val (addInt (new_symbol ''b'' (main_start 1)) 0 7) = Val_i 7"
  using typing_first_wins
    [where t = "\<lparr>sym_token = ''identifier'', name = ''a'', dtype = 0, sym_scope = 0,
          lineno = 1, valid = 1, sym_val = Val_i 5\<rparr>"
       and st = "(main_start 1)\<lparr>first := [\<lparr>sym_token = ''identifier'', name = ''a'',
          dtype = 0, sym_scope = 0, lineno = 1, valid = 1, sym_val = Val_i 5\<rparr>]\<rparr>"
       and p = 0 and u = "new_symbol ''b'' (main_start 1)"
       and ty = 1 and i = 7 and f = 2 and s = "''function''"]
    typing_first_wins
    [where t = "\<lparr>sym_token = ''identifier'', name = ''a'', dtype = 0, sym_scope = 0,
          lineno = 1, valid = 1, sym_val = Val_i 5\<rparr>"
       and u = "new_symbol ''b'' (main_start 1)"
       and ty = 0 and i = 7 and s = "''function''"]
    typing_first_wins
    [where t = "\<lparr>sym_token = ''identifier'', name = ''a'', dtype = 0, sym_scope = 0,
          lineno = 1, valid = 1, sym_val = Val_i 5\<rparr>"
       and ty = 3 and s = "''function''"]
  by (simp add: new_symbol_def main_start_def malloc_node_def)

subsection \<open>Division by zero\<close>

lemma bit_length_numeral:
  "bit_length (numeral (Num.Bit0 k)) = Suc (bit_length (numeral k))"
  "bit_length (numeral (Num.Bit1 k)) = Suc (bit_length (numeral k))"
  "bit_length 1 = 1" "bit_length 0 = 0" "bit_length (Suc 0) = 1"
  by (simp_all add: numeral_Bit0_div_2 numeral_Bit1_div_2)

declare bit_length.simps [simp del]

lemma float_of_INT_MAX: "float_of_int INT_MAX = 2147483648"
  by (simp add: float_of_int_def INT_MAX_def Let_def bit_length_numeral)

text \<open>
  Claim C8. A division whose right-hand operand has the value zero: the action prints
  exactly one warning (the line, the colour, \<open>warning: \<close>, the colour reset, the text
  \<open>division by zero is undefined\<close>), changes nothing else in the program state, so that no
  division node is put on the construction stack, raises no fault, so that processing
  continues, and leaves in \<open>$$\<close> the sentinel \<open>INT_MAX\<close>, which as a float is \<open>2147483648\<close>.
\<close>

theorem division_by_zero_reduction:
  "rule84_division 0 st =
     Inr (st\<lparr>stdout := stdout st @
            [''Line:'' @ show_int (line st) @ '': '', CHR 0x1B # ''[1;35m'', ''warning: '',
             CHR 0x1B # ''[0m'', ''division by zero is undefined'' @ [CHR 0x0A, CHR 0x0A]]\<rparr>)
   \<and> rule84_result fdiv v1 0 = float_of_int INT_MAX
   \<and> float_of_int INT_MAX = 2147483648"
  by (simp add: rule84_division_def rule84_result_def warning_head_def printf_def
      float_of_INT_MAX)

text \<open>
  Claim C10. On a division by zero the action pops nothing from the construction stack:
  both operand nodes stay where they are and no node is pushed, whereas the division by a
  value other than zero pops the two operands and pushes the division node; so the stack
  is left one entry deeper than after a normal division.
\<close>

theorem division_by_zero_pops_nothing:
  assumes "tree_top st = r # l # below" and "v3 \<noteq> 0"
  shows "\<exists>st0 st1. rule84_division 0 st = Inr st0 \<and> rule84_division v3 st = Inr st1
           \<and> tree_top st0 = r # l # below
           \<and> tree_top st1 = Ptr (Node l r Indeterminate Indeterminate ''/'') # below
           \<and> length (tree_top st0) = length (tree_top st1) + 1"
  using assms
  by (simp add: rule84_division_def warning_head_def printf_def create_node_binary)

theorem division_by_zero_pops_nothing_witness:
  "tree_top ((main_start 1)\<lparr>tree_top :=
                [Ptr (Node Null Null Indeterminate Indeterminate ''0''),
                 Ptr (Node Null Null Indeterminate Indeterminate ''10''), Null]\<rparr>)
     = Ptr (Node Null Null Indeterminate Indeterminate ''0'')
       # Ptr (Node Null Null Indeterminate Indeterminate ''10'') # [Null]
   \<and> (2 :: real) \<noteq> 0
   \<and> (\<exists>st0 st1.
        rule84_division 0 ((main_start 1)\<lparr>tree_top :=
                [Ptr (Node Null Null Indeterminate Indeterminate ''0''),
                 Ptr (Node Null Null Indeterminate Indeterminate ''10''), Null]\<rparr>) = Inr st0
      \<and> rule84_division 2 ((main_start 1)\<lparr>tree_top :=
                [Ptr (Node Null Null Indeterminate Indeterminate ''0''),
                 Ptr (Node Null Null Indeterminate Indeterminate ''10''), Null]\<rparr>) = Inr st1
      \<and> tree_top st0 = Ptr (Node Null Null Indeterminate Indeterminate ''0'')
                        # Ptr (Node Null Null Indeterminate Indeterminate ''10'') # [Null]
      \<and> tree_top st1
          = Ptr (Node (Ptr (Node Null Null Indeterminate Indeterminate ''10''))
                      (Ptr (Node Null Null Indeterminate Indeterminate ''0''))
                      Indeterminate Indeterminate ''/'') # [Null]
      \<and> length (tree_top st0) = length (tree_top st1) + 1)"
proof -
  have h: "tree_top ((main_start 1)\<lparr>tree_top :=
                [Ptr (Node Null Null Indeterminate Indeterminate ''0''),
                 Ptr (Node Null Null Indeterminate Indeterminate ''10''), Null]\<rparr>)
     = Ptr (Node Null Null Indeterminate Indeterminate ''0'')
       # Ptr (Node Null Null Indeterminate Indeterminate ''10'') # [Null]"
    by simp
  have n: "(2 :: real) \<noteq> 0" by simp
  from division_by_zero_pops_nothing [OF h n] h n show ?thesis by blast
qed

subsection \<open>Properties of the serialisation\<close>

declare preorder.simps(3) [simp del]

declare serial.simps(3) [simp del]

lemma preorder_serial_node:
  "preorder (Ptr n) buf = map_sum id ((@) buf) (serial (Ptr n))"
proof (induction n arbitrary: buf)
  case (Node l r v b tok)
  have child: "preorder c acc = map_sum id ((@) acc) (serial c)"
    if "c = l \<or> c = r \<or> c = v \<or> c = b" for c acc
  proof (cases c)
    case Null
    then show ?thesis by simp
  next
    case (Ptr x)
    with that Node.IH show ?thesis by (metis pointer.set_intros)
  next
    case Indeterminate
    then show ?thesis by simp
  qed
  show ?case
    unfolding preorder.simps(3) serial.simps(3)
    by (simp add: child split: sum.splits)
qed

lemma preorder_serial: "preorder n buf = map_sum id ((@) buf) (serial n)"
  by (cases n) (simp_all add: preorder_serial_node)

lemma serial_preorder: "serial n = preorder n []"
proof -
  have "map_sum id ((@) []) (serial n) = serial n" by (cases "serial n") simp_all
  then show ?thesis by (simp add: preorder_serial [of n "[]"])
qed

lemma serial_fault: "serial n = Inl e \<Longrightarrow> e = Indeterminate_value"
proof (induction n arbitrary: e rule: serial.induct)
  case 1
  then show ?case by simp
next
  case 2
  then show ?case by simp
next
  case (3 l r v b tok)
  have set: "or_else (is_set l) (or_else (is_set r) (or_else (is_set v) (is_set b))) = Inl e'
               \<Longrightarrow> e' = Indeterminate_value" for e'
    by (cases l; cases r; cases v; cases b) (simp_all add: or_else_def)
  from "3.prems" "3.IH" set show ?case
    unfolding serial.simps(3) by (auto split: sum.splits)
qed

lemma serial_node:
  "serial (Ptr (Node l r v b tok)) =
     (if l = Indeterminate \<or> r = Indeterminate \<or> v = Indeterminate \<or> b = Indeterminate
      then Inl Indeterminate_value
      else if l = Null \<and> r = Null \<and> v = Null \<and> b = Null then Inr (tok @ '' '')
      else then_do (serial l) (\<lambda>t1. then_do (serial r) (\<lambda>t2.
           then_do (serial v) (\<lambda>t3. then_do (serial b) (\<lambda>t4.
             Inr ('' ( '' @ tok @ '' '' @ t1 @ t2 @ t3 @ t4 @ '') ''))))))"
proof -
  have f: "serial c = Inl e \<Longrightarrow> e = Indeterminate_value" for c e by (rule serial_fault)
  show ?thesis
    unfolding serial.simps(3)
    by (cases l; cases r; cases v; cases b)
       (auto simp: or_else_def then_do_def split: sum.splits dest: f)
qed

lemma preorder_text:
  "preorder (Ptr (Node l r v b tok)) buf =
     (if l = Indeterminate \<or> r = Indeterminate \<or> v = Indeterminate \<or> b = Indeterminate
      then Inl Indeterminate_value
      else if l = Null \<and> r = Null \<and> v = Null \<and> b = Null then Inr (buf @ tok @ '' '')
      else then_do (preorder l []) (\<lambda>t1. then_do (preorder r []) (\<lambda>t2.
           then_do (preorder v []) (\<lambda>t3. then_do (preorder b []) (\<lambda>t4.
             Inr (buf @ '' ( '' @ tok @ '' '' @ t1 @ t2 @ t3 @ t4 @ '') ''))))))"
  unfolding preorder_serial [of "Ptr (Node l r v b tok)" buf] serial_node serial_preorder [symmetric]
  by (auto simp: then_do_def split: sum.splits)

text \<open>
  Claim C9, as stated: serialising the same tree twice gives byte-identical output both
  times. The output of \<open>preorder\<close> is the global buffer, which nothing clears: after the
  first run on the leaf \<open>a\<close> it holds \<open>a \<close>, after the second run it holds \<open>a a \<close>.
\<close>

theorem preorder_twice_counterexample:
  "then_do (preorder (Ptr (Node Null Null Null Null ''a'')) [])
     (preorder (Ptr (Node Null Null Null Null ''a'')))
   \<noteq> preorder (Ptr (Node Null Null Null Null ''a'')) []"
proof -
  have "preorder (Ptr (Node Null Null Null Null ''a'')) buf = Inr (buf @ ''a '')" for buf
    by (simp only: preorder_text) simp
  then show ?thesis by (simp add: then_do_def)
qed

text \<open>
  Claim C9, amended. Every run of \<open>preorder\<close> on a tree appends the same text to the
  buffer, a text that depends on the tree alone and not on what the buffer held (or every
  run stops at the same field that was never assigned); the buffer is not cleared between
  runs, so after a second run on the same tree it holds what it held before the first run
  and then that text twice.
\<close>

theorem preorder_appends_same_text:
  "preorder n buf = map_sum id (\<lambda>t. buf @ t) (preorder n [])
   \<and> then_do (preorder n buf) (preorder n) = map_sum id (\<lambda>t. buf @ t @ t) (preorder n [])"
proof -
  have 1: "preorder n buf = map_sum id (\<lambda>t. buf @ t) (preorder n [])" for buf
    using preorder_serial [of n buf] by (simp add: serial_preorder)
  have "then_do (preorder n buf) (preorder n) = map_sum id (\<lambda>t. buf @ t @ t) (preorder n [])"
  proof (cases "preorder n []")
    case (Inl e)
    with 1 [of buf] show ?thesis by (simp add: then_do_def)
  next
    case (Inr t)
    with 1 [of buf] 1 [of "buf @ t"] show ?thesis by (simp add: then_do_def)
  qed
  with 1 [of buf] show ?thesis by (intro conjI)
qed

lemma scenario_if_built:
  "map_sum id (\<lambda>st. hd (tree_top st)) (then_do declared_abx (build_stmt scenario_if))
     = Inr (Ptr scenario_if_tree)"
  by (simp add: declared_abx_def main_opened_def scenario_if_def scenario_if_tree_def action_defs)

lemma scenario_if_text:
  "preorder (zero_filled (Ptr scenario_if_tree)) []
     = Inr '' ( if  ( < a b )  ( = x 1 )  ( = x 2 ) ) ''"
  by (simp add: scenario_if_tree_def) (simp only: preorder_text, simp add: then_do_def)

lemma scenario_if_indeterminate:
  "preorder (Ptr scenario_if_tree) [] = Inl Indeterminate_value"
  by (simp add: scenario_if_tree_def) (simp only: preorder_text, simp)

lemma scenario_if_tokens:
  "tokens '' ( if  ( < a b )  ( = x 1 )  ( = x 2 ) ) '' =
     [''('', ''if'', ''('', ''<'', ''a'', ''b'', '')'', ''('', ''='', ''x'', ''1'', '')'',
      ''('', ''='', ''x'', ''2'', '')'', '')'']"
  by (simp add: tokens_def)

text \<open>
  Claim C2, as stated: the program \<open>if (a < b) x = 1; else x = 2;\<close> serialises to
  \<open>( if ( < a b ) ( = x 1 ) ( = x 2 ) )\<close> with exactly that token spacing. Where the
  fields that the actions never assign are \<^verbatim>\<open>NULL\<close>, the text that \<open>preorder\<close> writes for
  the tree of that statement is another one: it starts with a space, has two spaces where
  a label is followed by a parenthesis, and ends with a space. Where they are not, the
  source does not determine a text.
\<close>

theorem preorder_spacing_counterexample:
  "preorder (zero_filled (Ptr scenario_if_tree)) []
     \<noteq> Inr ''( if ( < a b ) ( = x 1 ) ( = x 2 ) )''
   \<and> preorder (Ptr scenario_if_tree) [] \<noteq> Inr ''( if ( < a b ) ( = x 1 ) ( = x 2 ) )''"
  by (simp add: scenario_if_text scenario_if_indeterminate)

text \<open>
  Claim C2, amended. On a node whose four child slots have all been assigned, \<open>preorder\<close>
  appends, when at least one slot is not empty, a space, an opening parenthesis and a
  space, the label and a space, the serialisations of child[0] (left), child[1] (right),
  child[2] (val), child[3] (body) in that order, an empty slot adding nothing, then a
  closing parenthesis and a space; for a childless node it appends the label and a space.
  On a node with a slot that was never assigned the source determines no output. The
  parser builds for the statement \<open>if (a < b) x = 1; else x = 2;\<close> the tree with the
  condition, the then-branch and the else-branch in the slots 0, 1, 2; the actions leave
  the slot \<^verbatim>\<open>body\<close> of the \<open>if\<close> node and the slots \<^verbatim>\<open>val\<close> and \<^verbatim>\<open>body\<close> of the other nodes
  unassigned, so the source determines no output for it. Where \<^verbatim>\<open>malloc\<close> returns
  zero-filled memory, so that these slots are empty, the tree serialises to
  \<open> ( if  ( < a b )  ( = x 1 )  ( = x 2 ) ) \<close>, whose tokens are those of
  \<open>( if ( < a b ) ( = x 1 ) ( = x 2 ) )\<close>.
\<close>

theorem preorder_serialisation:
  "preorder Null buf = Inr buf
   \<and> preorder (Ptr (Node l r v b tok)) buf =
       (if l = Indeterminate \<or> r = Indeterminate \<or> v = Indeterminate \<or> b = Indeterminate
        then Inl Indeterminate_value
        else if l = Null \<and> r = Null \<and> v = Null \<and> b = Null then Inr (buf @ tok @ '' '')
        else then_do (preorder l []) (\<lambda>t1. then_do (preorder r []) (\<lambda>t2.
             then_do (preorder v []) (\<lambda>t3. then_do (preorder b []) (\<lambda>t4.
               Inr (buf @ '' ( '' @ tok @ '' '' @ t1 @ t2 @ t3 @ t4 @ '') ''))))))
   \<and> map_sum id (\<lambda>st. hd (tree_top st)) (then_do declared_abx (build_stmt scenario_if))
       = Inr (Ptr scenario_if_tree)
   \<and> preorder (Ptr scenario_if_tree) [] = Inl Indeterminate_value
   \<and> preorder (zero_filled (Ptr scenario_if_tree)) []
       = Inr '' ( if  ( < a b )  ( = x 1 )  ( = x 2 ) ) ''
   \<and> tokens '' ( if  ( < a b )  ( = x 1 )  ( = x 2 ) ) '' =
       [''('', ''if'', ''('', ''<'', ''a'', ''b'', '')'', ''('', ''='', ''x'', ''1'', '')'',
        ''('', ''='', ''x'', ''2'', '')'', '')'']"
proof (intro conjI)
  show "preorder (Ptr (Node l r v b tok)) buf =
       (if l = Indeterminate \<or> r = Indeterminate \<or> v = Indeterminate \<or> b = Indeterminate
        then Inl Indeterminate_value
        else if l = Null \<and> r = Null \<and> v = Null \<and> b = Null then Inr (buf @ tok @ '' '')
        else then_do (preorder l []) (\<lambda>t1. then_do (preorder r []) (\<lambda>t2.
             then_do (preorder v []) (\<lambda>t3. then_do (preorder b []) (\<lambda>t4.
               Inr (buf @ '' ( '' @ tok @ '' '' @ t1 @ t2 @ t3 @ t4 @ '') ''))))))"
    by (rule preorder_text)
qed (simp_all add: scenario_if_built scenario_if_text scenario_if_indeterminate
       scenario_if_tokens)

subsection \<open>Symbol resolution\<close>

lemma afterE:
  assumes "after r P"
  obtains v where "r = Inr v" and "P v"
  using assms by (cases r) (simp_all add: after_def)

lemma position_None: "position P xs = None \<longleftrightarrow> (\<forall>x\<in>set xs. \<not> P x)"
  by (induction xs) auto

lemma position_Some:
  "position P xs = Some i \<longleftrightarrow> i < length xs \<and> P (xs ! i) \<and> (\<forall>j<i. \<not> P (xs ! j))"
proof (induction xs arbitrary: i)
  case Nil
  then show ?case by simp
next
  case (Cons x xs)
  show ?case
  proof (cases "P x")
    case True
    then show ?thesis by (cases i) auto
  next
    case False
    show ?thesis
    proof (cases i)
      case 0
      with False show ?thesis by auto
    next
      case (Suc k)
      have "(\<forall>j<Suc k. \<not> P ((x # xs) ! j)) \<longleftrightarrow> (\<forall>j<k. \<not> P (xs ! j))"
        using False by (auto simp: less_Suc_eq_0_disj)
      with False Suc Cons.IH [of k] show ?thesis by auto
    qed
  qed
qed

lemma checksym_loop_found:
  "position (\<lambda>s. name s = vname \<and> valid s = 1) syms = Some j \<Longrightarrow>
   checksym_loop vname sc syms i cu
     = (Some (i + j),
        if sym_scope (syms ! j) < sc then 1
        else if list_ex (\<lambda>s. name s = vname \<and> valid s = 0 \<and> sc < sym_scope s) (take j syms)
             then 0 else cu)"
proof (induction syms arbitrary: i cu j)
  case Nil
  then show ?case by simp
next
  case (Cons s syms)
  show ?case
  proof (cases "name s = vname \<and> valid s = 1")
    case True
    with Cons.prems have "j = 0" by simp
    with True show ?thesis by auto
  next
    case False
    with Cons.prems obtain k where k: "position (\<lambda>s. name s = vname \<and> valid s = 1) syms = Some k"
      "j = Suc k" by auto
    from Cons.IH [OF k(1)] False k(2) show ?thesis by auto
  qed
qed

lemma checksym_loop_none:
  "position (\<lambda>s. name s = vname \<and> valid s = 1) syms = None \<Longrightarrow>
   checksym_loop vname sc syms i cu
     = (None,
        if list_ex (\<lambda>s. name s = vname \<and> valid s = 0 \<and> sc < sym_scope s) syms then 0 else cu)"
proof (induction syms arbitrary: i cu)
  case Nil
  then show ?case by simp
next
  case (Cons s syms)
  then have "position (\<lambda>s. name s = vname \<and> valid s = 1) syms = None"
    and "\<not> (name s = vname \<and> valid s = 1)"
    by (auto split: if_splits)
  with Cons.IH show ?case by auto
qed

lemma checksym_found:
  assumes "position (\<lambda>s. name s = vname \<and> valid s = 1) (first st) = Some i"
  shows "checksym vname st
           = Inr (i, st\<lparr>check_un :=
                     if sym_scope (first st ! i) < scope st then 1
                     else if list_ex (\<lambda>s. name s = vname \<and> valid s = 0 \<and> scope st < sym_scope s)
                               (take i (first st))
                          then 0 else check_un st\<rparr>)"
proof -
  from assms have ne: "first st \<noteq> []" by auto
  from checksym_loop_found [OF assms, of "scope st" 0 "check_un st"] ne show ?thesis
    by (simp add: checksym_def)
qed

lemma checksym_fresh:
  assumes "position (\<lambda>s. name s = vname \<and> valid s = 1) (first st) = None"
    and "length vname < 20"
  shows "checksym vname st
           = Inr (length (first st),
                  st\<lparr>first := first st @ [new_symbol vname st],
                     check_un :=
                       if list_ex (\<lambda>s. name s = vname \<and> valid s = 0 \<and> scope st < sym_scope s)
                            (first st)
                       then 0 else check_un st\<rparr>)"
proof (cases "first st = []")
  case True
  with assms(2) show ?thesis
    by (simp add: checksym_def addsymbol_def new_symbol_def then_do_def)
next
  case False
  from checksym_loop_none [OF assms(1), of "scope st" 0 "check_un st"] False assms(2)
  show ?thesis
    by (simp add: checksym_def addsymbol_def new_symbol_def then_do_def)
qed

lemma checksym_long:
  assumes "position (\<lambda>s. name s = vname \<and> valid s = 1) (first st) = None"
    and "20 \<le> length vname"
  shows "checksym vname st = Inl Buffer_overflow"
proof (cases "first st = []")
  case True
  with assms(2) show ?thesis by (simp add: checksym_def addsymbol_def then_do_def)
next
  case False
  from checksym_loop_none [OF assms(1), of "scope st" 0 "check_un st"] False assms(2)
  show ?thesis by (simp add: checksym_def addsymbol_def then_do_def)
qed

lemma checksym_Inr:
  assumes "checksym vname st = Inr (p, st')"
  shows "tree_top st' = tree_top st" and "scope st' = scope st"
    and "datatype_g st' = datatype_g st"
    and "p < length (first st')" and "name (first st' ! p) = vname"
    and "first st' = first st \<or> first st' = first st @ [new_symbol vname st]"
proof -
  let ?Pv = "\<lambda>s. name s = vname \<and> valid s = 1"
  have "tree_top st' = tree_top st \<and> scope st' = scope st \<and> datatype_g st' = datatype_g st
        \<and> p < length (first st') \<and> name (first st' ! p) = vname
        \<and> (first st' = first st \<or> first st' = first st @ [new_symbol vname st])"
  proof (cases "position ?Pv (first st)")
    case None
    show ?thesis
    proof (cases "length vname < 20")
      case True
      from checksym_fresh [OF None True] assms show ?thesis
        by (auto simp: new_symbol_def)
    next
      case False
      then have "20 \<le> length vname" by simp
      from checksym_long [OF None this] assms show ?thesis by simp
    qed
  next
    case (Some i)
    then have "i < length (first st)" "name (first st ! i) = vname"
      by (simp_all add: position_Some)
    with checksym_found [OF Some] assms show ?thesis by auto
  qed
  then show "tree_top st' = tree_top st" and "scope st' = scope st"
    and "datatype_g st' = datatype_g st"
    and "p < length (first st')" and "name (first st' ! p) = vname"
    and "first st' = first st \<or> first st' = first st @ [new_symbol vname st]"
    by simp_all
qed

text \<open>The invariant of the table holds in every state of a run.\<close>

lemma ordered_append:
  assumes "ordered ks sc"
  shows "ordered (ks @ [(sc, 1)]) sc"
proof -
  from assms have "\<forall>x\<in>set (map fst (filter (\<lambda>k. snd k = 1) ks)). x \<le> sc"
    by (auto simp: ordered_def list_all_iff)
  with assms show ?thesis
    by (simp add: ordered_def sorted_append)
qed

lemma ordered_deeper: "ordered ks sc \<Longrightarrow> ordered ks (sc + 1)"
  by (auto simp: ordered_def list_all_iff)

lemma ordered_close:
  assumes "ordered ks sc"
    and "length ks' = length ks"
    and "\<And>j. j < length ks \<Longrightarrow>
           ks' ! j = ks ! j \<and> (snd (ks ! j) = 1 \<longrightarrow> fst (ks ! j) \<noteq> sc)
           \<or> (fst (ks' ! j) = fst (ks ! j) \<and> snd (ks' ! j) = 0)"
  shows "ordered ks' (sc - 1)"
  using assms
proof (induction ks arbitrary: ks')
  case Nil
  then show ?case by (simp add: ordered_def)
next
  case (Cons k ks)
  from Cons.prems(2) obtain k' ks'' where ks': "ks' = k' # ks''" "length ks'' = length ks"
    by (cases ks') auto
  from Cons.prems(1) have tail: "ordered ks sc"
    by (cases "snd k = 1") (auto simp: ordered_def)
  have step: "ks'' ! j = ks ! j \<and> (snd (ks ! j) = 1 \<longrightarrow> fst (ks ! j) \<noteq> sc)
           \<or> (fst (ks'' ! j) = fst (ks ! j) \<and> snd (ks'' ! j) = 0)" if "j < length ks" for j
    using Cons.prems(3) [of "Suc j"] that ks' by simp
  from Cons.IH [OF tail ks'(2) step] have IH: "ordered ks'' (sc - 1)" .
  from Cons.prems(3) [of 0] ks'
  have head: "k' = k \<and> (snd k = 1 \<longrightarrow> fst k \<noteq> sc) \<or> (fst k' = fst k \<and> snd k' = 0)"
    by simp
  show ?case
  proof (cases "snd k' = 1")
    case False
    with IH ks' show ?thesis by (simp add: ordered_def)
  next
    case True
    with head have same: "k' = k" and ne: "fst k \<noteq> sc" by auto
    from Cons.prems(1) True same have le: "fst k \<le> sc"
      and below: "\<forall>x\<in>set (map fst (filter (\<lambda>k. snd k = 1) ks)). fst k \<le> x"
      by (auto simp: ordered_def)
    have "fst k \<le> x" if "x \<in> set (map fst (filter (\<lambda>k. snd k = 1) ks''))" for x
    proof -
      from that obtain j where j: "j < length ks''" "snd (ks'' ! j) = 1" "x = fst (ks'' ! j)"
        by (auto simp: in_set_conv_nth)
      with step [of j] ks'(2) have "ks'' ! j = ks ! j" by auto
      with j ks'(2) have "x \<in> set (map fst (filter (\<lambda>k. snd k = 1) ks))"
        by (auto simp: in_set_conv_nth intro!: image_eqI [where x = "ks ! j"])
      with below show ?thesis by blast
    qed
    with IH True same le ne ks' show ?thesis
      by (auto simp: ordered_def)
  qed
qed

lemma ordered_keys:
  "ordered (keys syms) sc \<longleftrightarrow>
     sorted (map sym_scope (filter (\<lambda>s. valid s = 1) syms))
     \<and> list_all (\<lambda>s. valid s = 1 \<longrightarrow> sym_scope s \<le> sc) syms"
proof -
  have "map fst (filter (\<lambda>k. snd k = 1) (keys syms))
          = map sym_scope (filter (\<lambda>s. valid s = 1) syms)"
    by (induction syms) (simp_all add: keys_def)
  then show ?thesis by (simp add: ordered_def keys_def list_all_iff)
qed

lemma keys_typing:
  assumes "\<And>t. sym_scope (f t) = sym_scope t \<and> valid (f t) = valid t"
  shows "keys (xs[p := f (xs ! p)]) = keys xs"
proof (cases "p < length xs")
  case True
  have "keys (xs[p := f (xs ! p)]) = (keys xs)[p := keys xs ! p]"
    using True assms by (simp add: keys_def map_update)
  then show ?thesis by simp
next
  case False
  then have "length xs \<le> p" by arith
  then have "xs[p := f (xs ! p)] = xs" by (rule list_update_beyond)
  then show ?thesis by (simp only:)
qed

lemma keys_add:
  "keys (xs[p := addInt (xs ! p) ty i]) = keys xs"
  "keys (xs[p := addFloat (xs ! p) ty f]) = keys xs"
  "keys (xs[p := addChar (xs ! p) ty c]) = keys xs"
  "keys (xs[p := addfunc (xs ! p) ty s]) = keys xs"
  "keys (xs[p := (xs ! p)\<lparr>sym_val := v\<rparr>]) = keys xs"
  by (rule keys_typing, simp add: addInt_def addFloat_def addChar_def addfunc_def)+

lemma keys_new: "keys (xs @ [new_symbol vname st]) = keys xs @ [(scope st, 1)]"
  by (simp add: keys_def new_symbol_def)

lemma quiet_well_scoped: "well_scoped st \<Longrightarrow> quiet st st' \<Longrightarrow> well_scoped st'"
  by (auto simp: well_scoped_def quiet_def ordered_append)

lemma same_well_scoped:
  "well_scoped st \<Longrightarrow> first st' = first st \<and> scope st' = scope st \<Longrightarrow> well_scoped st'"
  by (simp add: well_scoped_def)

lemma keys_well_scoped:
  "well_scoped st \<Longrightarrow> keys (first st') = keys (first st) \<and> scope st' = scope st
     \<Longrightarrow> well_scoped st'"
  by (simp add: well_scoped_def)

lemma create_node_same:
  "create_node tok leaf st = Inr st' \<Longrightarrow> first st' = first st \<and> scope st' = scope st"
  by (auto simp: create_node_def pop_tree_def push_tree_def then_do_def
      split: if_splits list.splits)

lemma rule27_same: "rule27_if st = Inr st' \<Longrightarrow> first st' = first st \<and> scope st' = scope st"
  by (auto simp: rule27_if_def pop_tree_def push_tree_def then_do_def split: list.splits)

lemma rule28_same:
  "rule28_if_else st = Inr st' \<Longrightarrow> first st' = first st \<and> scope st' = scope st"
  by (auto simp: rule28_if_else_def pop_tree_def push_tree_def then_do_def split: list.splits)

lemma rule29_same: "rule29_for st = Inr st' \<Longrightarrow> first st' = first st \<and> scope st' = scope st"
  by (auto simp: rule29_for_def pop_tree_def push_tree_def then_do_def split: list.splits)

lemma rule50_same:
  "rule50_conditional st = Inr st' \<Longrightarrow> first st' = first st \<and> scope st' = scope st"
  by (auto simp: rule50_conditional_def pop_tree_def push_tree_def then_do_def
      split: list.splits)

lemma rule55_same:
  "rule55_identifier p st = Inr st' \<Longrightarrow> first st' = first st \<and> scope st' = scope st"
  by (auto simp: rule55_identifier_def Let_def printf_def error_head_def
      split: if_splits dest!: create_node_same)

lemma rule64_same:
  "rule64_unary st = Inr st' \<Longrightarrow> first st' = first st \<and> scope st' = scope st"
  by (auto simp: rule64_unary_def then_do_def split: if_splits sum.splits
      dest!: create_node_same)

lemma rule84_same:
  "rule84_division v3 st = Inr st' \<Longrightarrow> first st' = first st \<and> scope st' = scope st"
  by (auto simp: rule84_division_def printf_def warning_head_def split: if_splits
      dest!: create_node_same)

lemma rule85_same:
  "rule85_modulo v1 v3 st = Inr st' \<Longrightarrow> first st' = first st \<and> scope st' = scope st"
  by (auto simp: rule85_modulo_def printf_def error_head_def split: if_splits option.splits
      dest!: create_node_same)

lemma type_from_initialiser_keys:
  "type_from_initialiser p v4 st = Inr st' \<Longrightarrow>
     keys (first st') = keys (first st) \<and> scope st' = scope st"
  by (auto simp: type_from_initialiser_def then_do_def at_symbol_def printf_def warning_head_def
      Let_def keys_add split: if_splits option.splits)

lemma type_uninitialised_keys:
  "type_uninitialised p st = Inr st' \<Longrightarrow>
     keys (first st') = keys (first st) \<and> scope st' = scope st"
  by (auto simp: type_uninitialised_def at_symbol_def Let_def keys_add split: if_splits
      dest!: create_node_same)

lemma addsymbol_new: "addsymbol malloc_node vname st = Inr new \<Longrightarrow> new = new_symbol vname st"
  by (auto simp: addsymbol_def new_symbol_def split: if_splits)

lemma rule38_quiet: "rule38_init_declarator p v4 st = Inr st' \<Longrightarrow> quiet st st'"
proof -
  assume a: "rule38_init_declarator p v4 st = Inr st'"
  then have p: "p < length (first st)"
    by (auto simp: rule38_init_declarator_def split: if_splits)
  let ?s = "first st ! p"
  consider (shadow) "dtype ?s \<noteq> - 1 \<and> sym_scope ?s < scope st \<and> valid ?s = 1"
    | (redefinition) "\<not> (dtype ?s \<noteq> - 1 \<and> sym_scope ?s < scope st \<and> valid ?s = 1)"
        "dtype ?s \<noteq> - 1"
    | (untyped) "dtype ?s = - 1" by blast
  then show ?thesis
  proof cases
    case shadow
    with a p obtain new st2 where new: "addsymbol malloc_node (name ?s) st = Inr new"
      and t: "type_from_initialiser (length (first st)) v4 (st\<lparr>first := first st @ [new]\<rparr>) = Inr st2"
      and c: "create_node ''='' 0 st2 = Inr st'"
      by (auto simp: rule38_init_declarator_def then_do_def Let_def split: sum.splits)
    from addsymbol_new [OF new] type_from_initialiser_keys [OF t] create_node_same [OF c]
    show ?thesis by (simp add: quiet_def keys_new)
  next
    case redefinition
    with a p show ?thesis
      by (auto simp: rule38_init_declarator_def Let_def printf_def error_head_def quiet_def)
  next
    case untyped
    with a p obtain st2 where c: "create_node ''='' 0 st = Inr st2"
      and t: "type_from_initialiser p v4 st2 = Inr st'"
      by (auto simp: rule38_init_declarator_def then_do_def Let_def split: sum.splits)
    from type_from_initialiser_keys [OF t] create_node_same [OF c]
    show ?thesis by (simp add: quiet_def)
  qed
qed

lemma rule39_quiet: "rule39_init_declarator p st = Inr st' \<Longrightarrow> quiet st st'"
proof -
  assume a: "rule39_init_declarator p st = Inr st'"
  then have p: "p < length (first st)"
    by (auto simp: rule39_init_declarator_def split: if_splits)
  let ?s = "first st ! p"
  consider (shadow) "dtype ?s \<noteq> - 1 \<and> sym_scope ?s < scope st \<and> valid ?s = 1"
    | (redefinition) "\<not> (dtype ?s \<noteq> - 1 \<and> sym_scope ?s < scope st \<and> valid ?s = 1)"
        "dtype ?s \<noteq> - 1"
    | (untyped) "dtype ?s = - 1" by blast
  then show ?thesis
  proof cases
    case shadow
    with a p obtain new where new: "addsymbol malloc_node (name ?s) st = Inr new"
      and t: "type_uninitialised (length (first st)) (st\<lparr>first := first st @ [new]\<rparr>) = Inr st'"
      by (auto simp: rule39_init_declarator_def then_do_def Let_def split: sum.splits)
    from addsymbol_new [OF new] type_uninitialised_keys [OF t]
    show ?thesis by (simp add: quiet_def keys_new)
  next
    case redefinition
    with a p show ?thesis
      by (auto simp: rule39_init_declarator_def Let_def printf_def error_head_def quiet_def)
  next
    case untyped
    with a p have "type_uninitialised p st = Inr st'"
      by (auto simp: rule39_init_declarator_def Let_def)
    from type_uninitialised_keys [OF this] show ?thesis by (simp add: quiet_def)
  qed
qed

lemma rule42_keys:
  "rule42_assignment v4 st = Inr st' \<Longrightarrow>
     keys (first st') = keys (first st) \<and> scope st' = scope st"
proof -
  assume a: "rule42_assignment v4 st = Inr st'"
  show ?thesis
  proof (cases "assignop st = 0 \<and> idcheck st = 1")
    case False
    with a show ?thesis
      by (auto simp: rule42_assignment_def then_do_def printf_def split: if_splits)
  next
    case True
    with a obtain st1 c where cn: "create_node ''='' 0 st = Inr st1" and c: "crt st1 = Some c"
      "c < length (first st1)"
      by (auto simp: rule42_assignment_def then_do_def split: sum.splits option.splits if_splits)
    from create_node_same [OF cn] have same: "first st1 = first st" "scope st1 = scope st"
      by simp_all
    from a True cn c have "keys (first st') = keys (first st1) \<and> scope st' = scope st1"
      by (auto simp: rule42_assignment_def then_do_def Let_def at_symbol_def printf_def
          warning_head_def keys_add split: if_splits option.splits)
    with same show ?thesis by simp
  qed
qed

lemma rule90_keys:
  "rule90_declarator p st = Inr (fname, st') \<Longrightarrow>
     keys (first st') = keys (first st) \<and> scope st' = scope st"
  by (auto simp: rule90_declarator_def Let_def at_symbol_def keys_add split: if_splits)

lemma rule96_keys:
  "rule96_parameter p st = Inr st' \<Longrightarrow>
     keys (first st') = keys (first st) \<and> scope st' = scope st"
  by (auto simp: rule96_parameter_def at_symbol_def keys_add split: if_splits)

lemma checksym_quiet: "checksym vname st = Inr (p, st') \<Longrightarrow> quiet st st'"
  using checksym_Inr(2,6) [of vname st p st']
  by (auto simp: quiet_def keys_new)

lemma rule23_well_scoped:
  assumes "well_scoped st"
  shows "well_scoped (rule23_compound_statement st)"
  unfolding well_scoped_def
proof -
  let ?f = "\<lambda>ftp. if sym_scope ftp = scope st \<and> valid ftp = 1 then ftp\<lparr>valid := 0\<rparr> else ftp"
  have "ordered (keys (map ?f (first st))) (scope st - 1)"
  proof (rule ordered_close)
    from assms show "ordered (keys (first st)) (scope st)" by (simp add: well_scoped_def)
    show "length (keys (map ?f (first st))) = length (keys (first st))"
      by (simp add: keys_def)
    fix j assume "j < length (keys (first st))"
    then have "j < length (first st)" by (simp add: keys_def)
    then show "keys (map ?f (first st)) ! j = keys (first st) ! j
                 \<and> (snd (keys (first st) ! j) = 1 \<longrightarrow> fst (keys (first st) ! j) \<noteq> scope st)
               \<or> (fst (keys (map ?f (first st)) ! j) = fst (keys (first st) ! j)
                  \<and> snd (keys (map ?f (first st)) ! j) = 0)"
      by (auto simp: keys_def)
  qed
  then show "ordered (keys (first (rule23_compound_statement st)))
               (scope (rule23_compound_statement st))"
    by (simp add: rule23_compound_statement_def)
qed

lemma close_function_well_scoped:
  assumes "well_scoped st"
  shows "well_scoped (close_function st)"
  unfolding well_scoped_def
proof -
  let ?f = "\<lambda>ftp. if sym_scope ftp = scope st \<and> valid ftp = 1 then ftp\<lparr>valid := 0\<rparr>
                  else if sym_token ftp = ''param'' \<and> valid ftp = 1 then ftp\<lparr>valid := 0\<rparr>
                  else ftp"
  have "ordered (keys (map ?f (first st))) (scope st - 1)"
  proof (rule ordered_close)
    from assms show "ordered (keys (first st)) (scope st)" by (simp add: well_scoped_def)
    show "length (keys (map ?f (first st))) = length (keys (first st))"
      by (simp add: keys_def)
    fix j assume "j < length (keys (first st))"
    then have "j < length (first st)" by (simp add: keys_def)
    then show "keys (map ?f (first st)) ! j = keys (first st) ! j
                 \<and> (snd (keys (first st) ! j) = 1 \<longrightarrow> fst (keys (first st) ! j) \<noteq> scope st)
               \<or> (fst (keys (map ?f (first st)) ! j) = fst (keys (first st) ! j)
                  \<and> snd (keys (map ?f (first st)) ! j) = 0)"
      by (auto simp: keys_def)
  qed
  then show "ordered (keys (first (close_function st))) (scope (close_function st))"
    by (simp add: close_function_def)
qed

lemma rule2_well_scoped:
  assumes "well_scoped st"
  shows "well_scoped (rule2_program st)"
proof -
  let ?keep = "\<lambda>entry. \<not> (dtype entry = - 1
                 \<or> (name entry = ''main'' \<and> sym_token entry = ''function''))"
  from assms have srt: "sorted (map sym_scope (filter (\<lambda>s. valid s = 1) (first st)))"
    and le: "list_all (\<lambda>s. valid s = 1 \<longrightarrow> sym_scope s \<le> scope st) (first st)"
    by (simp_all add: well_scoped_def ordered_keys)
  have "filter (\<lambda>s. valid s = 1) (filter ?keep (first st))
          = filter ?keep (filter (\<lambda>s. valid s = 1) (first st))"
    by (simp add: conj_commute)
  moreover from srt have "sorted (map sym_scope (filter ?keep (filter (\<lambda>s. valid s = 1) (first st))))"
    by (rule sorted_filter)
  moreover from le have "list_all (\<lambda>s. valid s = 1 \<longrightarrow> sym_scope s \<le> scope st)
                           (filter ?keep (first st))"
    by (auto simp: list_all_iff)
  ultimately show ?thesis
    by (simp add: well_scoped_def ordered_keys rule2_program_def cleansymbol_def)
qed

lemma reachable_well_scoped: "reachable st \<Longrightarrow> well_scoped st"
proof (induction rule: reachable.induct)
  case (start line0)
  show ?case by (simp add: well_scoped_def ordered_def keys_def main_start_def)
next
  case (scanned_line st l)
  then show ?case by (simp add: well_scoped_def)
next
  case (scanned_brace st)
  then show ?case by (simp add: well_scoped_def yylex_open_brace_def ordered_deeper)
next
  case (scanned_identifier st yytext p st')
  then show ?case
    by (auto simp: yylex_IDENTIFIER_def dest!: checksym_quiet intro: quiet_well_scoped)
next
  case (reduced2 st)
  from reduced2.IH show ?case by (rule rule2_well_scoped)
next
  case (reduced14 st st')
  then show ?case
    by (auto simp: rule14_block_item_list_def dest!: create_node_same intro: same_well_scoped)
next
  case (reduced18 st st')
  then show ?case
    by (auto simp: rule18_return_def dest!: create_node_same intro: same_well_scoped)
next
  case (reduced23 st)
  from reduced23.IH show ?case by (rule rule23_well_scoped)
next
  case (reduced27 st st')
  then show ?case by (auto dest!: rule27_same intro: same_well_scoped)
next
  case (reduced28 st st')
  then show ?case by (auto dest!: rule28_same intro: same_well_scoped)
next
  case (reduced29 st st')
  then show ?case by (auto dest!: rule29_same intro: same_well_scoped)
next
  case (reduced30 st st')
  then show ?case
    by (auto simp: rule30_while_def dest!: create_node_same intro: same_well_scoped)
next
  case (reduced31 st ival)
  then show ?case by (simp add: well_scoped_def rule31_type_specifier_def)
next
  case (reduced37 st p st')
  then show ?case
    by (auto simp: rule37_declared_name_def split: if_splits dest!: create_node_same
        intro: same_well_scoped)
next
  case (reduced38 st p v4 st')
  then show ?case by (auto dest!: rule38_quiet intro: quiet_well_scoped)
next
  case (reduced39 st p st')
  then show ?case by (auto dest!: rule39_quiet intro: quiet_well_scoped)
next
  case (reduced41 st)
  then show ?case by (simp add: well_scoped_def rule41_assignment_target_def)
next
  case (reduced42 st v4 st')
  then show ?case by (auto dest!: rule42_keys intro: keys_well_scoped)
next
  case (reduced43 st n)
  then show ?case by (simp add: well_scoped_def rule43_assignment_operator_def)
next
  case (reduced50 st st')
  then show ?case by (auto dest!: rule50_same intro: same_well_scoped)
next
  case (reduced55 st p st')
  then show ?case by (auto dest!: rule55_same intro: same_well_scoped)
next
  case (reduced56 st ival st')
  then show ?case
    by (auto simp: rule56_integer_literal_def Let_def dest!: create_node_same
        intro: same_well_scoped)
next
  case (reduced58 st cval st')
  then show ?case
    by (auto simp: rule58_character_literal_def Let_def dest!: create_node_same
        intro: same_well_scoped)
next
  case (reduced61 st st')
  then show ?case
    by (auto simp: rule61_post_increment_def dest!: create_node_same intro: same_well_scoped)
next
  case (reduced62 st st')
  then show ?case
    by (auto simp: rule62_post_decrement_def dest!: create_node_same intro: same_well_scoped)
next
  case (reduced64 st st')
  then show ?case by (auto dest!: rule64_same intro: same_well_scoped)
next
  case (reduced65 st n)
  then show ?case by (simp add: well_scoped_def rule65_unary_operator_def)
next
  case (reduced_binary st op st')
  then show ?case
    by (auto simp: rule_binary_operator_def dest!: create_node_same intro: same_well_scoped)
next
  case (reduced84 st v3 st')
  then show ?case by (auto dest!: rule84_same intro: same_well_scoped)
next
  case (reduced85 st v1 v3 st')
  then show ?case by (auto dest!: rule85_same intro: same_well_scoped)
next
  case (reduced86 st fname st')
  then obtain st1 where c: "create_node fname 3 st = Inr st1" and s: "st' = close_function st1"
    by (auto simp: rule86_function_definition_def then_do_def split: sum.splits)
  from reduced86.IH create_node_same [OF c] have "well_scoped st1"
    by (rule same_well_scoped)
  with s show ?case by (simp add: close_function_well_scoped)
next
  case (reduced87 st fname st')
  then obtain st1 where c: "create_node fname 3 st = Inr st1"
    and s: "st' = close_function (printf (''type specifier missing, defaults to '' @ quoted ''int''
                        @ [CHR '' '', CHR 0x0A]) (warning_head st1))"
    by (auto simp: rule87_function_definition_def then_do_def split: sum.splits)
  from reduced87.IH create_node_same [OF c] have "well_scoped st1"
    by (rule same_well_scoped)
  then have "well_scoped (printf (''type specifier missing, defaults to '' @ quoted ''int''
                        @ [CHR '' '', CHR 0x0A]) (warning_head st1))"
    by (simp add: well_scoped_def printf_def warning_head_def)
  with s show ?case by (simp add: close_function_well_scoped)
next
  case (reduced90 st p fname st')
  then show ?case by (auto dest!: rule90_keys intro: keys_well_scoped)
next
  case (reduced96 st p st')
  then show ?case by (auto dest!: rule96_keys intro: keys_well_scoped)
qed

lemma sorted_filter_nth:
  "sorted (map f (filter P xs)) \<Longrightarrow> j < i \<Longrightarrow> i < length xs \<Longrightarrow> P (xs ! j) \<Longrightarrow> P (xs ! i)
     \<Longrightarrow> f (xs ! j) \<le> (f (xs ! i) :: int)"
proof (induction xs arbitrary: i j)
  case Nil
  then show ?case by simp
next
  case (Cons x xs)
  from Cons.prems obtain k where i: "i = Suc k" by (cases i) auto
  show ?case
  proof (cases j)
    case 0
    with Cons.prems i have "P x" and "P (xs ! k)" and "k < length xs" by auto
    then have "f (xs ! k) \<in> set (map f (filter P xs))" by auto
    with Cons.prems(1) \<open>P x\<close> have "f x \<le> f (xs ! k)" by auto
    with 0 i show ?thesis by simp
  next
    case (Suc m)
    from Cons.prems(1) have "sorted (map f (filter P xs))" by (cases "P x") auto
    from Cons.IH [OF this, of m k] Cons.prems Suc i show ?thesis by simp
  qed
qed

text \<open>
  Claim C4. In every state of a run and for every name that fits \<^verbatim>\<open>char name[20]\<close>,
  \<^verbatim>\<open>checksym\<close> decides among the four outcomes in the precedence of the spec: first, a
  valid symbol of the name at a scope strictly outer than the current one is returned and
  the inherited flag \<^verbatim>\<open>check_un\<close> is set; second, a valid symbol of exactly the current
  scope is returned; third, after a symbol of the name that is no longer valid and lies at
  a strictly inner scope, the name is declared afresh: a new untyped symbol of the current
  scope is appended and returned, the flag reset; fourth, with no match, a new untyped
  symbol of the current scope is appended and returned, nothing else changed.
\<close>

theorem checksym_precedence:
  assumes "reachable st" and "length vname < 20"
  shows "checksym_follows vname st"
proof -
  let ?Pv = "\<lambda>s. name s = vname \<and> valid s = 1"
  let ?Po = "\<lambda>s. name s = vname \<and> valid s = 1 \<and> sym_scope s < scope st"
  let ?Pc = "\<lambda>s. name s = vname \<and> valid s = 1 \<and> sym_scope s = scope st"
  let ?Q = "\<lambda>s. name s = vname \<and> valid s = 0 \<and> scope st < sym_scope s"
  from assms(1) have "well_scoped st" by (rule reachable_well_scoped)
  then have srt: "sorted (map sym_scope (filter (\<lambda>s. valid s = 1) (first st)))"
    and le: "\<And>s. s \<in> set (first st) \<Longrightarrow> valid s = 1 \<Longrightarrow> sym_scope s \<le> scope st"
    by (auto simp: well_scoped_def ordered_keys list_all_iff)
  show ?thesis
  proof (cases "position ?Po (first st)")
    case (Some i)
    then have i: "i < length (first st)" "?Po (first st ! i)" "\<forall>j<i. \<not> ?Po (first st ! j)"
      by (simp_all add: position_Some)
    have "\<not> ?Pv (first st ! j)" if "j < i" for j
    proof
      assume pv: "?Pv (first st ! j)"
      with sorted_filter_nth [OF srt that i(1)] i(2)
      have "sym_scope (first st ! j) \<le> sym_scope (first st ! i)" by simp
      with i(2) pv have "?Po (first st ! j)" by simp
      with i(3) that show False by blast
    qed
    with i have "position ?Pv (first st) = Some i" by (simp add: position_Some)
    from checksym_found [OF this] i(2) Some show ?thesis
      by (simp add: checksym_follows_def resolveOrDeclare_outcome_def)
  next
    case None
    then have no: "\<And>s. s \<in> set (first st) \<Longrightarrow> \<not> ?Po s" by (simp add: position_None)
    show ?thesis
    proof (cases "position ?Pc (first st)")
      case (Some i)
      then have i: "i < length (first st)" "?Pc (first st ! i)" "\<forall>j<i. \<not> ?Pc (first st ! j)"
        by (simp_all add: position_Some)
      have "\<not> ?Pv (first st ! j)" if "j < i" for j
      proof
        assume pv: "?Pv (first st ! j)"
        from that i(1) have mem: "first st ! j \<in> set (first st)" by simp
        from le [OF mem] no [OF mem] pv have "?Pc (first st ! j)" by auto
        with i(3) that show False by blast
      qed
      with i have "position ?Pv (first st) = Some i" by (simp add: position_Some)
      from checksym_found [OF this] i(2)
      have "checksym vname st = Inr (i, st) \<or> checksym vname st = Inr (i, st\<lparr>check_un := 0\<rparr>)"
        by (cases "list_ex ?Q (take i (first st))") simp_all
      with None Some show ?thesis
        by (simp add: checksym_follows_def resolveOrDeclare_outcome_def)
    next
      case none: None
      then have nc: "\<And>s. s \<in> set (first st) \<Longrightarrow> \<not> ?Pc s" by (simp add: position_None)
      have "position ?Pv (first st) = None"
        unfolding position_None
      proof
        fix s assume mem: "s \<in> set (first st)"
        show "\<not> ?Pv s"
        proof
          assume pv: "?Pv s"
          from le [OF mem] no [OF mem] nc [OF mem] pv show False by auto
        qed
      qed
      from checksym_fresh [OF this assms(2)] None none show ?thesis
        by (simp add: checksym_follows_def resolveOrDeclare_outcome_def)
    qed
  qed
qed

theorem checksym_precedence_witness:
  "reachable block_entered \<and> length ''a'' < 20 \<and> length ''b'' < 20
   \<and> checksym_follows ''a'' block_entered \<and> checksym_follows ''b'' block_entered
   \<and> resolveOrDeclare_outcome ''a'' block_entered = Inherited 0
   \<and> checksym ''a'' block_entered = Inr (0, block_entered\<lparr>check_un := 1\<rparr>)
   \<and> resolveOrDeclare_outcome ''b'' block_entered = No_match
   \<and> checksym ''b'' block_entered
       = Inr (1, block_entered\<lparr>first := first block_entered
                                          @ [new_symbol ''b'' block_entered]\<rparr>)"
proof -
  have look: "yylex_IDENTIFIER ''a'' (main_start 1)
                = Inr (0, (main_start 1)\<lparr>first := [new_symbol ''a'' (main_start 1)]\<rparr>)"
    by (simp add: yylex_IDENTIFIER_def checksym_def addsymbol_def new_symbol_def then_do_def
        main_start_def)
  have "reachable ((main_start 1)\<lparr>first := [new_symbol ''a'' (main_start 1)]\<rparr>)"
    using reachable.start look by (rule reachable.scanned_identifier)
  then have r: "reachable block_entered"
    unfolding block_entered_def by (rule reachable.scanned_brace)
  have a: "length ''a'' < 20" and b: "length ''b'' < 20" by simp_all
  from checksym_precedence [OF r a] checksym_precedence [OF r b] r
  show ?thesis
    by (simp add: checksym_follows_def resolveOrDeclare_outcome_def block_entered_def
        yylex_open_brace_def new_symbol_def main_start_def malloc_node_def)
qed

subsection \<open>Scopes\<close>

text \<open>
  Claim C5 fails on the code where the name is used after a same-named inner declaration.
  Rule 38 gives the inner declaration a symbol of its own, appended to the table behind
  the outer one, and \<^verbatim>\<open>checksym\<close> returns the first valid symbol of the name in the order
  of the table: inside the inner block, after \<^verbatim>\<open>int a = 6;\<close>, the name \<open>a\<close> still resolves
  to the symbol of the outer declaration (position 1), so the inner declaration never
  shadows the outer one. For \<^verbatim>\<open>int main() { int a = 5; { int a = 6; } }\<close>, the scenario of
  the claim, no diagnostic is printed and the symbol table holds, at the end of the parse,
  the outer \<open>a\<close> with the value 5. For \<^verbatim>\<open>int main() { int a = 5; { int a = 6; a = 7; } }\<close>
  the assignment in the inner block is made to the outer symbol: no diagnostic is printed,
  and at the end of the parse the table holds the outer \<open>a\<close>, of scope 1, with the value 7
  and the inner \<open>a\<close>, of scope 2, with the value 6.
\<close>

theorem inner_declaration_does_not_shadow:
  "map_sum id (\<lambda>st. (listed st, stdout st)) (yyparse shadow_program (main_start 1))
     = Inr ([(''a'', 1, 0, Val_i 5), (''a'', 2, 0, Val_i 6)], [[CHR 0x0A]])
   \<and> then_do inside_inner_block
        (\<lambda>st. map_sum id (\<lambda>(p, st'). (p, listed st')) (checksym ''a'' st))
     = Inr (1, [(''main'', 0, 1, Val_i 0), (''a'', 1, 1, Val_i 5), (''a'', 2, 1, Val_i 6)])
   \<and> map_sum id (\<lambda>st. (listed st, stdout st)) (yyparse shadow_assign_program (main_start 1))
     = Inr ([(''a'', 1, 0, Val_i 7), (''a'', 2, 0, Val_i 6)], [[CHR 0x0A]])"
  by (simp add: shadow_program_def shadow_assign_program_def inside_inner_block_def
      main_opened_def listed_def action_defs)

subsection \<open>The depth of the construction stack\<close>

lemma rule55_builds:
  assumes "builds55 p st"
  shows "\<exists>st' n. rule55_identifier p st = Inr st' \<and> tree_top st' = Ptr n # tree_top st"
  using assms
  by (auto simp: builds55_def rule55_identifier_def create_node_leaf Let_def)

lemma rule56_builds:
  "\<exists>st' n. rule56_integer_literal ival st = Inr st' \<and> tree_top st' = Ptr n # tree_top st"
  by (simp add: rule56_integer_literal_def create_node_leaf Let_def)

lemma rule58_builds:
  "\<exists>st' n. rule58_character_literal cval st = Inr st' \<and> tree_top st' = Ptr n # tree_top st"
  by (simp add: rule58_character_literal_def create_node_leaf Let_def)

lemma rule84_builds:
  assumes "v3 \<noteq> 0" and "tree_top st = r # l # below"
  shows "\<exists>st' n. rule84_division v3 st = Inr st' \<and> tree_top st' = Ptr n # below"
  using assms by (simp add: rule84_division_def create_node_binary)

lemma rule85_builds:
  assumes "builds85 v1 v3 st" and "tree_top st = r # l # below"
  shows "\<exists>st' n. rule85_modulo v1 v3 st = Inr st' \<and> tree_top st' = Ptr n # below"
  using assms
  by (auto simp: builds85_def rule85_modulo_def create_node_binary split: option.splits)

lemma rule50_builds:
  assumes "tree_top st = e # t # c # below"
  shows "\<exists>st' n. rule50_conditional st = Inr st' \<and> tree_top st' = Ptr n # below"
  using assms by (simp add: rule50_conditional_def pop_tree_def then_do_def push_tree_def)

lemma rule42_builds:
  assumes "builds42 v4 st" and "tree_top st = r # l # below"
  shows "\<exists>st' n. rule42_assignment v4 st = Inr st' \<and> tree_top st' = Ptr n # below"
proof -
  from assms(1) obtain c where c: "assignop st = 0" "idcheck st = 1" "crt st = Some c"
    "c < length (first st)" "conversion_needed (dtype (first st ! c)) v4"
    by (auto simp: builds42_def split: option.splits)
  let ?st1 = "st\<lparr>tree_top := Ptr (Node l r Indeterminate Indeterminate ''='') # below\<rparr>"
  from create_node_binary [OF assms(2), of "''=''"]
  have cn: "create_node ''='' 0 st = Inr ?st1" .
  from c(5) have conv: "dtype (first st ! c) = 0 \<or> dtype (first st ! c) = 2
                          \<Longrightarrow> \<exists>iv. int_of_float v4 = Some iv"
    by (auto simp: conversion_needed_def)
  show ?thesis
  proof (cases "dtype (first st ! c) = 0 \<or> dtype (first st ! c) = 2")
    case True
    with conv obtain iv where "int_of_float v4 = Some iv" by blast
    with True c cn show ?thesis
      by (auto simp: rule42_assignment_def then_do_def Let_def at_symbol_def printf_def
          warning_head_def)
  next
    case False
    with c cn show ?thesis
      by (auto simp: rule42_assignment_def then_do_def Let_def at_symbol_def printf_def
          warning_head_def)
  qed
qed

lemma two_operands:
  assumes "clean_expr a st" and "after (build_expr a st) (clean_expr b)"
    and IHa: "\<And>st. clean_expr a st \<Longrightarrow>
               \<exists>st' n. build_expr a st = Inr st' \<and> tree_top st' = Ptr n # tree_top st"
    and IHb: "\<And>st. clean_expr b st \<Longrightarrow>
               \<exists>st' n. build_expr b st = Inr st' \<and> tree_top st' = Ptr n # tree_top st"
  shows "\<exists>st1 st2 na nb. build_expr a st = Inr st1 \<and> build_expr b st1 = Inr st2
           \<and> tree_top st2 = Ptr nb # Ptr na # tree_top st"
proof -
  from IHa [OF assms(1)] obtain st1 na where a: "build_expr a st = Inr st1"
    "tree_top st1 = Ptr na # tree_top st" by blast
  from assms(2) a(1) have "clean_expr b st1" by (simp add: after_def)
  from IHb [OF this] obtain st2 nb where b: "build_expr b st1 = Inr st2"
    "tree_top st2 = Ptr nb # tree_top st1" by blast
  from a b show ?thesis by simp
qed

lemma build_expr_pushes_one:
  "clean_expr e st \<Longrightarrow>
     \<exists>st' n. build_expr e st = Inr st' \<and> tree_top st' = Ptr n # tree_top st"
proof (induction e arbitrary: st)
  case (Int_literal ival)
  from rule56_builds [of ival st] show ?case by auto
next
  case (Char_literal cval)
  from rule58_builds [of cval st] show ?case by auto
next
  case (Identifier yytext)
  then obtain p st1 where look: "checksym yytext st = Inr (p, st1)" and b: "builds55 p st1"
    by (cases "checksym yytext st") (auto simp: yylex_IDENTIFIER_def after_def)
  from rule55_builds [OF b] checksym_Inr(1) [OF look] look show ?case
    by (auto simp: yylex_IDENTIFIER_def then_do_def)
next
  case (Paren a)
  then show ?case by simp
next
  case (Binary op a b)
  then have "clean_expr a st" and "after (build_expr a st) (clean_expr b)" by simp_all
  from two_operands [OF this Binary.IH(1) Binary.IH(2)]
  obtain st1 st2 na nb where r: "build_expr a st = Inr st1" "build_expr b st1 = Inr st2"
    "tree_top st2 = Ptr nb # Ptr na # tree_top st" by blast
  from create_node_binary [OF r(3), of "binop_label op"] r(1,2) show ?case
    by (simp add: then_do_def rule_binary_operator_def)
next
  case (Divide a b v3)
  then have "clean_expr a st" and "after (build_expr a st) (clean_expr b)" and v: "v3 \<noteq> 0"
    by simp_all
  from two_operands [OF this(1,2) Divide.IH(1) Divide.IH(2)]
  obtain st1 st2 na nb where r: "build_expr a st = Inr st1" "build_expr b st1 = Inr st2"
    "tree_top st2 = Ptr nb # Ptr na # tree_top st" by blast
  from rule84_builds [OF v r(3)] r(1,2) show ?case
    by (auto simp: then_do_def)
next
  case (Modulo a b v1 v3)
  then have ca: "clean_expr a st"
    and rest: "after (build_expr a st)
                 (\<lambda>st1. clean_expr b st1 \<and> after (build_expr b st1) (builds85 v1 v3))"
    by simp_all
  from rest have "after (build_expr a st) (clean_expr b)"
    by (cases "build_expr a st") (simp_all add: after_def)
  from two_operands [OF ca this Modulo.IH(1) Modulo.IH(2)]
  obtain st1 st2 na nb where r: "build_expr a st = Inr st1" "build_expr b st1 = Inr st2"
    "tree_top st2 = Ptr nb # Ptr na # tree_top st" by blast
  from rest r(1,2) have "builds85 v1 v3 st2" by (simp add: after_def)
  from rule85_builds [OF this r(3)] r(1,2) show ?case
    by (auto simp: then_do_def)
next
  case (Conditional c a b)
  then have cc: "clean_expr c st"
    and rest: "after (build_expr c st)
                 (\<lambda>st1. clean_expr a st1 \<and> after (build_expr a st1) (clean_expr b))"
    by simp_all
  from Conditional.IH(1) [OF cc] obtain st1 nc where c: "build_expr c st = Inr st1"
    "tree_top st1 = Ptr nc # tree_top st" by blast
  from rest c(1) have "clean_expr a st1" and "after (build_expr a st1) (clean_expr b)"
    by (simp_all add: after_def)
  from two_operands [OF this Conditional.IH(2) Conditional.IH(3)]
  obtain st2 st3 na nb where r: "build_expr a st1 = Inr st2" "build_expr b st2 = Inr st3"
    "tree_top st3 = Ptr nb # Ptr na # tree_top st1" by blast
  from r(3) c(2) have "tree_top st3 = Ptr nb # Ptr na # Ptr nc # tree_top st" by simp
  from rule50_builds [OF this] c(1) r(1,2) show ?case
    by (auto simp: then_do_def)
next
  case (Unary n a)
  then show ?case by simp
next
  case (Post_inc a)
  then show ?case by simp
next
  case (Post_dec a)
  then show ?case by simp
next
  case (Assign yytext a v4)
  from Assign.prems
  have "after (checksym yytext st) (\<lambda>(p, st1). builds55 p st1
          \<and> after (rule55_identifier p st1) (\<lambda>st2.
                clean_expr a (rule43_assignment_operator 0 (rule41_assignment_target st2))
                \<and> after (build_expr a (rule43_assignment_operator 0 (rule41_assignment_target st2)))
                    (builds42 v4)))"
    by (simp add: yylex_IDENTIFIER_def)
  then obtain p st1 where look: "checksym yytext st = Inr (p, st1)"
    and b55: "builds55 p st1"
    and rest: "after (rule55_identifier p st1) (\<lambda>st2.
                clean_expr a (rule43_assignment_operator 0 (rule41_assignment_target st2))
                \<and> after (build_expr a (rule43_assignment_operator 0 (rule41_assignment_target st2)))
                    (builds42 v4))"
    by (cases "checksym yytext st") (auto simp: after_def)
  from rule55_builds [OF b55] obtain st2 nl where st2: "rule55_identifier p st1 = Inr st2"
    "tree_top st2 = Ptr nl # tree_top st1" by blast
  let ?st3 = "rule43_assignment_operator 0 (rule41_assignment_target st2)"
  from rest st2(1) have ca: "clean_expr a ?st3"
    and b42: "after (build_expr a ?st3) (builds42 v4)" by (simp_all add: after_def)
  from Assign.IH [OF ca] obtain st4 na where st4: "build_expr a ?st3 = Inr st4"
    "tree_top st4 = Ptr na # tree_top ?st3" by blast
  from b42 st4(1) have "builds42 v4 st4" by (simp add: after_def)
  moreover from st4(2) st2(2) checksym_Inr(1) [OF look]
  have "tree_top st4 = Ptr na # Ptr nl # tree_top st"
    by (simp add: rule43_assignment_operator_def rule41_assignment_target_def)
  ultimately obtain st5 n where "rule42_assignment v4 st4 = Inr st5"
    "tree_top st5 = Ptr n # tree_top st"
    using rule42_builds by blast
  with look st2(1) st4(1) show ?case
    by (simp add: yylex_IDENTIFIER_def then_do_def)
qed

lemma rule27_builds:
  assumes "tree_top st = t # c # below"
  shows "\<exists>st' n. rule27_if st = Inr st' \<and> tree_top st' = Ptr n # below"
  using assms by (simp add: rule27_if_def pop_tree_def then_do_def push_tree_def)

lemma rule28_builds:
  assumes "tree_top st = e # t # c # below"
  shows "\<exists>st' n. rule28_if_else st = Inr st' \<and> tree_top st' = Ptr n # below"
  using assms by (simp add: rule28_if_else_def pop_tree_def then_do_def push_tree_def)

lemma rule29_builds:
  assumes "tree_top st = b # u # c # i # below"
  shows "\<exists>st' n. rule29_for st = Inr st' \<and> tree_top st' = Ptr n # below"
  using assms by (simp add: rule29_for_def pop_tree_def then_do_def push_tree_def)

lemma type_from_initialiser_builds:
  assumes "conversion_needed (datatype_g st) v4"
  shows "\<exists>st'. type_from_initialiser p v4 st = Inr st' \<and> tree_top st' = tree_top st"
  using assms
  by (auto simp: conversion_needed_def type_from_initialiser_def then_do_def at_symbol_def
      printf_def warning_head_def Let_def split: if_splits)

lemma rule38_builds:
  assumes "builds38 p v4 st" and "tree_top st = r # l # below"
  shows "\<exists>st' n. rule38_init_declarator p v4 st = Inr st' \<and> tree_top st' = Ptr n # below"
proof -
  let ?s = "first st ! p"
  from assms(1) have p: "p < length (first st)"
    and conv: "conversion_needed (datatype_g st) v4"
    and br: "dtype ?s = - 1 \<or> (sym_scope ?s < scope st \<and> valid ?s = 1 \<and> length (name ?s) < 20)"
    by (simp_all add: builds38_def)
  show ?thesis
  proof (cases "dtype ?s = - 1")
    case True
    from create_node_binary [OF assms(2), of "''=''"]
    have cn: "create_node ''='' 0 st
                = Inr (st\<lparr>tree_top := Ptr (Node l r Indeterminate Indeterminate ''='') # below\<rparr>)" .
    let ?st1 = "st\<lparr>tree_top := Ptr (Node l r Indeterminate Indeterminate ''='') # below\<rparr>"
    from conv have "conversion_needed (datatype_g ?st1) v4" by simp
    from type_from_initialiser_builds [OF this, of p]
    obtain st2 where "type_from_initialiser p v4 ?st1 = Inr st2" "tree_top st2 = tree_top ?st1"
      by blast
    with True p cn show ?thesis
      by (simp add: rule38_init_declarator_def then_do_def Let_def)
  next
    case False
    with br have sh: "dtype ?s \<noteq> - 1 \<and> sym_scope ?s < scope st \<and> valid ?s = 1"
      and fit: "length (name ?s) < 20" by simp_all
    let ?st1 = "st\<lparr>first := first st @ [new_symbol (name ?s) st]\<rparr>"
    from fit have add: "addsymbol malloc_node (name ?s) st = Inr (new_symbol (name ?s) st)"
      by (simp add: addsymbol_def new_symbol_def)
    from conv have "conversion_needed (datatype_g ?st1) v4" by simp
    from type_from_initialiser_builds [OF this, of "length (first st)"]
    obtain st2 where st2: "type_from_initialiser (length (first st)) v4 ?st1 = Inr st2"
      "tree_top st2 = tree_top ?st1" by blast
    from st2(2) assms(2) have "tree_top st2 = r # l # below" by simp
    from create_node_binary [OF this, of "''=''"] sh p st2(1) add show ?thesis
      by (simp add: rule38_init_declarator_def then_do_def Let_def)
  qed
qed

lemma type_uninitialised_builds:
  assumes "p < length (first st)" and "length (name (first st ! p)) < 17"
  shows "\<exists>st' n. type_uninitialised p st = Inr st' \<and> tree_top st' = Ptr n # tree_top st"
proof -
  have keep: "name ((first st)[p := f (first st ! p)] ! p) = name (first st ! p)"
    if "\<And>t. name (f t) = name t" for f
    using assms(1) that by simp
  from assms(2) keep [of "\<lambda>t. addInt t 0 INT_MIN"]
    keep [of "\<lambda>t. addFloat t 1 (float_of_int INT_MIN)"] keep [of "\<lambda>t. addChar t 2 CHR ''-''"]
  show ?thesis
    by (simp add: type_uninitialised_def create_node_leaf at_symbol_def Let_def addInt_def
        addFloat_def addChar_def)
qed

lemma rule39_builds:
  assumes "builds39 p st"
  shows "\<exists>st' n. rule39_init_declarator p st = Inr st' \<and> tree_top st' = Ptr n # tree_top st"
proof -
  let ?s = "first st ! p"
  from assms have p: "p < length (first st)"
    and fit: "length (name ?s) < 17"
    and br: "dtype ?s = - 1 \<or> (sym_scope ?s < scope st \<and> valid ?s = 1)"
    by (simp_all add: builds39_def)
  show ?thesis
  proof (cases "dtype ?s = - 1")
    case True
    with p type_uninitialised_builds [OF p fit] show ?thesis
      by (simp add: rule39_init_declarator_def Let_def)
  next
    case False
    with br have sh: "dtype ?s \<noteq> - 1 \<and> sym_scope ?s < scope st \<and> valid ?s = 1" by simp
    let ?st1 = "st\<lparr>first := first st @ [new_symbol (name ?s) st]\<rparr>"
    from fit have add: "addsymbol malloc_node (name ?s) st = Inr (new_symbol (name ?s) st)"
      by (simp add: addsymbol_def new_symbol_def)
    have "length (first st) < length (first ?st1)" by simp
    moreover from fit have "length (name (first ?st1 ! length (first st))) < 17"
      by (simp add: new_symbol_def)
    ultimately obtain st' n where "type_uninitialised (length (first st)) ?st1 = Inr st'"
      "tree_top st' = Ptr n # tree_top ?st1"
      using type_uninitialised_builds by blast
    with sh p add show ?thesis
      by (simp add: rule39_init_declarator_def then_do_def Let_def)
  qed
qed

lemma build_stmt_pushes_one:
  "clean_stmt s st \<Longrightarrow>
     \<exists>st' n. build_stmt s st = Inr st' \<and> tree_top st' = Ptr n # tree_top st"
  and build_item_pushes_one:
  "clean_item i st \<Longrightarrow>
     \<exists>st' n. build_item i st = Inr st' \<and> tree_top st' = Ptr n # tree_top st"
  and build_items_pushes_one:
  "clean_items block st \<Longrightarrow>
     \<exists>st' n. build_items block st = Inr st' \<and> tree_top st' = Ptr n # tree_top st"
proof (induction s and i and block arbitrary: st and st and st)
  case (Expression_statement e)
  then obtain e' where "e = Some e'" and "clean_expr e' st" by (cases e) simp_all
  with build_expr_pushes_one [of e' st] show ?case by simp
next
  case Compound_empty
  then show ?case by simp
next
  case (Compound block)
  then have "clean_items block (yylex_open_brace st)" by simp
  from Compound.IH [OF this] obtain st1 n where "build_items block (yylex_open_brace st) = Inr st1"
    "tree_top st1 = Ptr n # tree_top (yylex_open_brace st)" by blast
  then show ?case
    by (simp add: then_do_def rule23_compound_statement_def yylex_open_brace_def)
next
  case (If_then c s)
  then have cc: "clean_expr c st" and rest: "after (build_expr c st) (clean_stmt s)" by simp_all
  from build_expr_pushes_one [OF cc] obtain st1 nc where c: "build_expr c st = Inr st1"
    "tree_top st1 = Ptr nc # tree_top st" by blast
  from rest c(1) have "clean_stmt s st1" by (simp add: after_def)
  from If_then.IH [OF this] obtain st2 ns where s: "build_stmt s st1 = Inr st2"
    "tree_top st2 = Ptr ns # tree_top st1" by blast
  from s(2) c(2) have "tree_top st2 = Ptr ns # Ptr nc # tree_top st" by simp
  from rule27_builds [OF this] c(1) s(1) show ?case by (auto simp: then_do_def)
next
  case (If_then_else c s1 s2)
  then have cc: "clean_expr c st"
    and rest: "after (build_expr c st) (\<lambda>st1. clean_stmt s1 st1
                 \<and> after (build_stmt s1 st1) (clean_stmt s2))" by simp_all
  from build_expr_pushes_one [OF cc] obtain st1 nc where c: "build_expr c st = Inr st1"
    "tree_top st1 = Ptr nc # tree_top st" by blast
  from rest c(1) have c1: "clean_stmt s1 st1"
    and rest2: "after (build_stmt s1 st1) (clean_stmt s2)" by (simp_all add: after_def)
  from If_then_else.IH(1) [OF c1] obtain st2 n1 where s1: "build_stmt s1 st1 = Inr st2"
    "tree_top st2 = Ptr n1 # tree_top st1" by blast
  from rest2 s1(1) have "clean_stmt s2 st2" by (simp add: after_def)
  from If_then_else.IH(2) [OF this] obtain st3 n2 where s2: "build_stmt s2 st2 = Inr st3"
    "tree_top st3 = Ptr n2 # tree_top st2" by blast
  from s2(2) s1(2) c(2) have "tree_top st3 = Ptr n2 # Ptr n1 # Ptr nc # tree_top st" by simp
  from rule28_builds [OF this] c(1) s1(1) s2(1) show ?case by (auto simp: then_do_def)
next
  case (While c s)
  then have cc: "clean_expr c st" and rest: "after (build_expr c st) (clean_stmt s)" by simp_all
  from build_expr_pushes_one [OF cc] obtain st1 nc where c: "build_expr c st = Inr st1"
    "tree_top st1 = Ptr nc # tree_top st" by blast
  from rest c(1) have "clean_stmt s st1" by (simp add: after_def)
  from While.IH [OF this] obtain st2 ns where s: "build_stmt s st1 = Inr st2"
    "tree_top st2 = Ptr ns # tree_top st1" by blast
  from s(2) c(2) have "tree_top st2 = Ptr ns # Ptr nc # tree_top st" by simp
  from create_node_binary [OF this, of "''while''"] c(1) s(1) show ?case
    by (simp add: then_do_def rule30_while_def)
next
  case (For init cond incr s)
  then obtain i c where ic: "init = Some i" "cond = Some c"
    and ci: "clean_expr i st"
    and rest: "after (build_expr i st) (\<lambda>st1. clean_expr c st1
                 \<and> after (build_expr c st1) (\<lambda>st2. clean_expr incr st2
                     \<and> after (build_expr incr st2) (clean_stmt s)))"
    by (cases init; cases cond) simp_all
  from build_expr_pushes_one [OF ci] obtain st1 ni where i: "build_expr i st = Inr st1"
    "tree_top st1 = Ptr ni # tree_top st" by blast
  from rest i(1) have cc: "clean_expr c st1"
    and rest2: "after (build_expr c st1) (\<lambda>st2. clean_expr incr st2
                  \<and> after (build_expr incr st2) (clean_stmt s))" by (simp_all add: after_def)
  from build_expr_pushes_one [OF cc] obtain st2 nc where c: "build_expr c st1 = Inr st2"
    "tree_top st2 = Ptr nc # tree_top st1" by blast
  from rest2 c(1) have cu: "clean_expr incr st2"
    and rest3: "after (build_expr incr st2) (clean_stmt s)" by (simp_all add: after_def)
  from build_expr_pushes_one [OF cu] obtain st3 nu where u: "build_expr incr st2 = Inr st3"
    "tree_top st3 = Ptr nu # tree_top st2" by blast
  from rest3 u(1) have "clean_stmt s st3" by (simp add: after_def)
  from For.IH [OF this] obtain st4 nb where b: "build_stmt s st3 = Inr st4"
    "tree_top st4 = Ptr nb # tree_top st3" by blast
  from b(2) u(2) c(2) i(2)
  have "tree_top st4 = Ptr nb # Ptr nu # Ptr nc # Ptr ni # tree_top st" by simp
  from rule29_builds [OF this] ic i(1) c(1) u(1) b(1) show ?case by (auto simp: then_do_def)
next
  case (Declaration ival yytext e v4)
  let ?st0 = "rule31_type_specifier ival st"
  from Declaration.prems obtain p st1 where look: "checksym yytext ?st0 = Inr (p, st1)"
    and rest: "after (rule37_declared_name p st1) (\<lambda>st2. clean_expr e st2
                 \<and> after (build_expr e st2) (builds38 p v4))"
    by (cases "checksym yytext ?st0") (auto simp: yylex_IDENTIFIER_def after_def)
  from checksym_Inr [OF look] have p: "p < length (first st1)"
    and top1: "tree_top st1 = tree_top st"
    by (simp_all add: rule31_type_specifier_def)
  let ?leaf = "Ptr (Node Null Null Indeterminate Indeterminate (name (first st1 ! p)))"
  let ?st2 = "st1\<lparr>tree_top := ?leaf # tree_top st1\<rparr>"
  from p have r37: "rule37_declared_name p st1 = Inr ?st2"
    by (simp add: rule37_declared_name_def create_node_leaf)
  from rest r37 have ce: "clean_expr e ?st2"
    and rest2: "after (build_expr e ?st2) (builds38 p v4)"
    by (simp_all add: after_def)
  from build_expr_pushes_one [OF ce] obtain st3 ne where e: "build_expr e ?st2 = Inr st3"
    "tree_top st3 = Ptr ne # tree_top ?st2" by blast
  from rest2 e(1) have b38: "builds38 p v4 st3" by (simp add: after_def)
  from e(2) top1 have "tree_top st3 = Ptr ne # ?leaf # tree_top st" by simp
  from rule38_builds [OF b38 this] look r37 e(1) show ?case
    by (auto simp: yylex_IDENTIFIER_def then_do_def)
next
  case (Declaration_plain ival yytext)
  let ?st0 = "rule31_type_specifier ival st"
  from Declaration_plain obtain p st1 where look: "checksym yytext ?st0 = Inr (p, st1)"
    and b: "builds39 p st1"
    by (cases "checksym yytext ?st0") (auto simp: yylex_IDENTIFIER_def after_def)
  from checksym_Inr(1) [OF look] have "tree_top st1 = tree_top st"
    by (simp add: rule31_type_specifier_def)
  with rule39_builds [OF b] look show ?case
    by (auto simp: yylex_IDENTIFIER_def then_do_def)
next
  case (Statement s)
  then show ?case by simp
next
  case (Return e)
  then show ?case by (simp add: rule18_return_def create_node_leaf then_do_def)
next
  case (One i)
  then show ?case by simp
next
  case (More block i)
  then have cb: "clean_items block st" and rest: "after (build_items block st) (clean_item i)"
    by simp_all
  from More.IH(1) [OF cb] obtain st1 nb where b: "build_items block st = Inr st1"
    "tree_top st1 = Ptr nb # tree_top st" by blast
  from rest b(1) have "clean_item i st1" by (simp add: after_def)
  from More.IH(2) [OF this] obtain st2 ni where i: "build_item i st1 = Inr st2"
    "tree_top st2 = Ptr ni # tree_top st1" by blast
  from i(2) b(2) have "tree_top st2 = Ptr ni # Ptr nb # tree_top st" by simp
  from create_node_binary [OF this, of "''stmt''"] b(1) i(1) show ?case
    by (simp add: then_do_def rule14_block_item_list_def)
qed






text \<open>
  Claim C7 fails on the code where the actions pass the wrong kind to \<open>create_node\<close>: the
  \<open>return\<close> action builds a leaf and leaves its operand \<open>a\<close> beside it on the stack, so that
  the block rule joins the two under \<open>stmt\<close> and the first statement is left below the
  root; the postfix increment builds a node with two children, its operand and the node
  of the statement before it; the unary minus builds a node with two children, its
  operand and the leaf of the name being declared. In the last two programs a later
  reduction then pops the cell that \<open>main\<close> pushed first, which holds no node.
\<close>

theorem arities_built_for_return_and_unary:
  "map_sum id tree_top (yyparse return_program (main_start 1))
     = Inr [Ptr (Node (Ptr (Node (Ptr (Node Null Null Indeterminate Indeterminate ''a''))
                                 (Ptr (Node Null Null Indeterminate Indeterminate ''return''))
                                 Indeterminate Indeterminate ''stmt''))
                      Null Indeterminate Indeterminate ''main''),
            Ptr (Node (Ptr (Node Null Null Indeterminate Indeterminate ''a''))
                      (Ptr (Node Null Null Indeterminate Indeterminate ''1''))
                      Indeterminate Indeterminate ''=''),
            Null]
   \<and> map_sum id tree_top (yyparse increment_program (main_start 1))
     = Inr [Ptr (Node
              (Ptr (Node Null
                 (Ptr (Node
                    (Ptr (Node (Ptr (Node Null Null Indeterminate Indeterminate ''a''))
                               (Ptr (Node Null Null Indeterminate Indeterminate ''1''))
                               Indeterminate Indeterminate ''=''))
                    (Ptr (Node Null Null Indeterminate Indeterminate ''a''))
                    Indeterminate Indeterminate ''++''))
                 Indeterminate Indeterminate ''stmt''))
              Null Indeterminate Indeterminate ''main'')]
   \<and> map_sum id tree_top (yyparse negation_program (main_start 1))
     = Inr [Ptr (Node
              (Ptr (Node Null
                 (Ptr (Node
                    (Ptr (Node (Ptr (Node Null Null Indeterminate Indeterminate ''a''))
                               (Ptr (Node Null Null Indeterminate Indeterminate ''1''))
                               Indeterminate Indeterminate ''=''))
                    (Ptr (Node (Ptr (Node Null Null Indeterminate Indeterminate ''b''))
                               (Ptr (Node Null Null Indeterminate Indeterminate ''a''))
                               Indeterminate Indeterminate (quoted ''-'')))
                    Indeterminate Indeterminate ''=''))
                 Indeterminate Indeterminate ''stmt''))
              Null Indeterminate Indeterminate ''main'')]"
  by (simp add: return_program_def increment_program_def negation_program_def action_defs)

end
